theory Spec2Isabelle
  imports Complex_Main "HOL-Library.AList"
begin

section \<open>The flexible movie-data loader (\<^verbatim>\<open>flexible_loader.py\<close>)\<close>

text \<open>
  A shallow embedding of class \<^verbatim>\<open>FlexibleDataLoader\<close>: the schema registry, the source
  detector (\<^verbatim>\<open>_detect_source\<close>), the column mapper (\<^verbatim>\<open>_get_column_mapping\<close>,
  \<^verbatim>\<open>_fuzzy_match_all\<close>), and the record normaliser (\<^verbatim>\<open>_apply_mapping\<close>,
  \<^verbatim>\<open>_validate_and_clean\<close>), with \<^verbatim>\<open>load_and_map\<close> on top of them.

  Modelling conventions.
  \<^item> A Python \<^verbatim>\<open>dict\<close> is an association list in insertion order whose keys are
    distinct; \<^verbatim>\<open>d[k] = v\<close> is \<open>dict_set\<close> (overwrite in place, or append), \<^verbatim>\<open>k in d\<close>
    and \<^verbatim>\<open>d[k]\<close> are \<open>map_of\<close>.
  \<^item> A pandas \<^verbatim>\<open>DataFrame\<close> is a row count together with a list of named columns;
    column labels may repeat, as they can in pandas after \<^verbatim>\<open>rename\<close>.
  \<^item> A cell is missing (\<^verbatim>\<open>NaN\<close>/\<^verbatim>\<open>None\<close>/\<^verbatim>\<open>pd.NA\<close>), a number or a text. Numbers are
    exact reals: the rounding of binary floating point is not modelled.
  \<^item> pandas is a library outside the repository. Its operations follow pandas 1.x/2.x
    (no copy-on-write), the versions in which the chained
    \<^verbatim>\<open>df[c].fillna(v, inplace=True)\<close> of the source writes through to the frame.
    What pandas decides on its own (which texts parse as numbers, how a number is
    printed) is a parameter of the model: \<open>parse\<close> and \<open>repr\<close>.
  \<^item> Every \<^verbatim>\<open>raise\<close> is a value \<open>Inl e\<close> of the result type \<open>error + 'a\<close>.
\<close>

subsection \<open>Python values\<close>

datatype error = KeyError | TypeError | ValueError | AttributeError | LoadError

text \<open>\<^verbatim>\<open>str.lower()\<close> on ASCII text: \<^verbatim>\<open>A\<close>..\<^verbatim>\<open>Z\<close> go to \<^verbatim>\<open>a\<close>..\<^verbatim>\<open>z\<close>, every other
  character stays.\<close>

definition lower_char :: "char \<Rightarrow> char" where
  "lower_char c =
     (let n = (of_char c :: nat) in if 65 \<le> n \<and> n \<le> 90 then char_of (n + 32) else c)"

definition lower :: "string \<Rightarrow> string" where
  "lower s = map lower_char s"

type_synonym ('k, 'v) dict = "('k \<times> 'v) list"

text \<open>\<^verbatim>\<open>d[k] = v\<close>: an existing key keeps its position and takes the new value, a new key
  goes to the end.\<close>

definition dict_set :: "('k, 'v) dict \<Rightarrow> 'k \<Rightarrow> 'v \<Rightarrow> ('k, 'v) dict" where
  "dict_set d k v = AList.update k v d"

definition dict_keys :: "('k, 'v) dict \<Rightarrow> 'k list" where
  "dict_keys d = map fst d"

definition dict_values :: "('k, 'v) dict \<Rightarrow> 'v list" where
  "dict_values d = map snd d"

text \<open>\<^verbatim>\<open>max(xs, key=f)\<close>: the first element whose key is maximal (a later element replaces
  the current one only when its key is strictly greater); \<^verbatim>\<open>ValueError\<close> on an empty
  sequence.\<close>

fun max_from :: "('a \<Rightarrow> nat) \<Rightarrow> 'a \<Rightarrow> 'a list \<Rightarrow> 'a" where
  "max_from f best [] = best"
| "max_from f best (x # xs) = max_from f (if f best < f x then x else best) xs"

fun py_max :: "('a \<Rightarrow> nat) \<Rightarrow> 'a list \<Rightarrow> error + 'a" where
  "py_max f [] = Inl ValueError"
| "py_max f (x # xs) = Inr (max_from f x xs)"

subsection \<open>Schema registry\<close>

datatype pytype = PyStr | PyInt | PyFloat

definition STANDARD_SCHEMA :: "(string, pytype) dict" where
  "STANDARD_SCHEMA =
     [(''movie_id'', PyStr), (''title'', PyStr), (''genres'', PyStr),
      (''release_year'', PyInt), (''runtime'', PyInt), (''rating'', PyFloat),
      (''vote_count'', PyInt), (''popularity'', PyFloat), (''overview'', PyStr)]"

definition SOURCE_MAPPINGS :: "(string, (string, string) dict) dict" where
  "SOURCE_MAPPINGS =
     [(''tmdb'',
        [(''id'', ''movie_id''), (''title'', ''title''), (''genres'', ''genres''),
         (''release_date'', ''release_year''), (''runtime'', ''runtime''),
         (''vote_average'', ''rating''), (''vote_count'', ''vote_count''),
         (''popularity'', ''popularity''), (''overview'', ''overview'')]),
      (''imdb'',
        [(''tconst'', ''movie_id''), (''primary_title'', ''title''),
         (''original_title'', ''title''), (''genres'', ''genres''),
         (''start_year'', ''release_year''), (''runtime_minutes'', ''runtime''),
         (''average_rating'', ''rating''), (''num_votes'', ''vote_count''),
         (''title_id'', ''movie_id'')]),
      (''movielens'',
        [(''movieid'', ''movie_id''), (''movie_id'', ''movie_id''), (''title'', ''title''),
         (''genres'', ''genres''), (''rating'', ''rating''), (''timestamp'', ''vote_count'')]),
      (''rotten_tomatoes'',
        [(''id'', ''movie_id''), (''name'', ''title''), (''title'', ''title''),
         (''genre'', ''genres''), (''genres'', ''genres''), (''year'', ''release_year''),
         (''rating'', ''rating''), (''audience_score'', ''rating''),
         (''imdb_rating'', ''rating'')]),
      (''letterboxd'',
        [(''id'', ''movie_id''), (''name'', ''title''), (''year'', ''release_year''),
         (''genre'', ''genres''), (''rating'', ''rating''), (''rating_count'', ''vote_count''),
         (''description'', ''overview'')]),
      (''kaggle'',
        [(''movie_id'', ''movie_id''), (''film_name'', ''title''), (''movie_name'', ''title''),
         (''name'', ''title''), (''genre'', ''genres''), (''release_year'', ''release_year''),
         (''year'', ''release_year''), (''rating'', ''rating''), (''votes'', ''vote_count''),
         (''runtime'', ''runtime'')])]"

definition FUZZY_PATTERNS :: "(string, string list) dict" where
  "FUZZY_PATTERNS =
     [(''movie_id'', [''id'', ''movie_id'', ''tconst'', ''imdb_id'', ''film_id'']),
      (''title'', [''title'', ''name'', ''film_name'', ''movie_name'', ''primary_title'',
                   ''original_title'']),
      (''genres'', [''genre'', ''genres'', ''genre_list'', ''category'']),
      (''release_year'', [''year'', ''release_year'', ''release_date'', ''start_year'',
                          ''release_date_published'']),
      (''runtime'', [''runtime'', ''duration'', ''length'', ''running_time'']),
      (''rating'', [''rating'', ''score'', ''imdb_rating'', ''average_rating'',
                    ''audience_score'', ''vote_average'']),
      (''vote_count'', [''votes'', ''vote_count'', ''num_votes'', ''number_of_votes'',
                        ''rating_count'', ''count'']),
      (''popularity'', [''popularity'', ''popular'', ''score'']),
      (''overview'', [''overview'', ''description'', ''synopsis'', ''summary'', ''plot''])]"

text \<open>The signature table is local to \<^verbatim>\<open>_detect_source\<close>; its order of declaration is the
  order in which \<^verbatim>\<open>scores\<close> is filled and \<^verbatim>\<open>max\<close> walks it.\<close>

definition source_signatures :: "(string, string set) dict" where
  "source_signatures =
     [(''imdb'', {''tconst'', ''primary_title'', ''start_year''}),
      (''tmdb'', {''id'', ''vote_average'', ''vote_count''}),
      (''movielens'', {''movieid'', ''userid'', ''timestamp''}),
      (''rotten_tomatoes'', {''audience_score'', ''critics_score''}),
      (''letterboxd'', {''imdb_code'', ''imdb_id''}),
      (''kaggle'', {''film_name'', ''movie_name'', ''name''})]"

subsection \<open>Tables\<close>

datatype cell = NA | Num real | Str string

record dataframe =
  nrows :: nat
  cols :: "(string \<times> cell list) list"

text \<open>\<^verbatim>\<open>df.columns\<close> and \<^verbatim>\<open>name in df.columns\<close>.\<close>

definition df_columns :: "dataframe \<Rightarrow> string list" where
  "df_columns df = map fst (cols df)"

text \<open>Every column of a frame has one cell per row. This is what pandas maintains; the
  row keys of \<open>drop_duplicates\<close> below read cell \<open>i\<close> of a column for each row \<open>i\<close>.\<close>

definition wf_df :: "dataframe \<Rightarrow> bool" where
  "wf_df df = list_all (\<lambda>c. length (snd c) = nrows df) (cols df)"

subsection \<open>Source detector\<close>

text \<open>\<^verbatim>\<open>len(sig_cols & df_cols_lower)\<close> for one source.\<close>

definition match_count :: "string list \<Rightarrow> string set \<Rightarrow> nat" where
  "match_count columns sig_cols = card (sig_cols \<inter> set (map lower columns))"

text \<open>\<^verbatim>\<open>scores\<close>, filled in the order of the signature table.\<close>

definition scores :: "string list \<Rightarrow> (string, nat) dict" where
  "scores columns = map (\<lambda>(source, sig_cols). (source, match_count columns sig_cols)) source_signatures"

text \<open>\<^verbatim>\<open>scores.get\<close>, reading \<^verbatim>\<open>None\<close> as no match (every key \<^verbatim>\<open>max\<close> passes is present).\<close>

definition scores_get :: "string list \<Rightarrow> string \<Rightarrow> nat" where
  "scores_get columns source = (case map_of (scores columns) source of Some n \<Rightarrow> n | None \<Rightarrow> 0)"

definition detect_source :: "dataframe \<Rightarrow> error + string" where
  "detect_source df =
     (case py_max (scores_get (df_columns df)) (dict_keys (scores (df_columns df))) of
        Inl e \<Rightarrow> Inl e
      | Inr detected \<Rightarrow>
          Inr (if 0 < scores_get (df_columns df) detected then detected else ''kaggle''))"

subsection \<open>Column mapper\<close>

text \<open>\<^verbatim>\<open>{col.lower(): col for col in df.columns}\<close>: of two columns that differ in case
  only, the later one stays.\<close>

definition df_cols_lower :: "dataframe \<Rightarrow> (string, string) dict" where
  "df_cols_lower df = fold (\<lambda>col d. dict_set d (lower col) col) (df_columns df) []"

text \<open>The first loop of \<^verbatim>\<open>_get_column_mapping\<close>: every key of the source's dictionary that
  names a column is entered, with no test on the destination.\<close>

definition exact_matches ::
  "(string, string) dict \<Rightarrow> (string, string) dict \<Rightarrow> (string, string) dict \<Rightarrow> (string, string) dict"
where
  "exact_matches dcl source_map mapping =
     fold (\<lambda>(orig_col, std_col) m.
             case map_of dcl (lower orig_col) of
               Some actual_col \<Rightarrow> dict_set m actual_col std_col
             | None \<Rightarrow> m)
          source_map mapping"

text \<open>The inner loop over one field's patterns: the first pattern that names a column not
  yet a key of the mapping is entered, and the loop breaks.\<close>

fun fuzzy_field ::
  "(string, string) dict \<Rightarrow> string \<Rightarrow> string list \<Rightarrow> (string, string) dict \<Rightarrow> (string, string) dict"
where
  "fuzzy_field dcl std_col [] m = m"
| "fuzzy_field dcl std_col (pattern # patterns) m =
     (case map_of dcl (lower pattern) of
        Some actual_col \<Rightarrow>
          if actual_col \<notin> set (dict_keys m) then dict_set m actual_col std_col
          else fuzzy_field dcl std_col patterns m
      | None \<Rightarrow> fuzzy_field dcl std_col patterns m)"

text \<open>The second loop of \<^verbatim>\<open>_get_column_mapping\<close>: only fields that are not yet a value of
  the mapping are tried.\<close>

definition fuzzy_remaining ::
  "(string, string) dict \<Rightarrow> (string, string list) dict \<Rightarrow> (string, string) dict \<Rightarrow> (string, string) dict"
where
  "fuzzy_remaining dcl table mapping =
     fold (\<lambda>(std_col, patterns) m.
             if std_col \<notin> set (dict_values m) then fuzzy_field dcl std_col patterns m else m)
          table mapping"

definition fuzzy_match_all :: "dataframe \<Rightarrow> (string, string) dict" where
  "fuzzy_match_all df =
     fold (\<lambda>(std_col, patterns) m. fuzzy_field (df_cols_lower df) std_col patterns m)
          FUZZY_PATTERNS []"

text \<open>\<^verbatim>\<open>SOURCE_MAPPINGS.get(source, {})\<close>.\<close>

definition source_map_of :: "string \<Rightarrow> (string, string) dict" where
  "source_map_of source = (case map_of SOURCE_MAPPINGS source of Some m \<Rightarrow> m | None \<Rightarrow> [])"

definition get_column_mapping :: "dataframe \<Rightarrow> string \<Rightarrow> (string, string) dict" where
  "get_column_mapping df source =
     (let dcl = df_cols_lower df;
          mapping = exact_matches dcl (source_map_of source) [];
          mapping = fuzzy_remaining dcl FUZZY_PATTERNS mapping
      in if mapping = [] then fuzzy_match_all df else mapping)"

text \<open>Lines 153--164 of \<^verbatim>\<open>load_and_map\<close>: the source is detected when none is given, and
  \<^verbatim>\<open>if custom_mapping:\<close> tests the truth value of the argument, which is false for
  \<^verbatim>\<open>None\<close> and for the empty dictionary.\<close>

definition resolve_mapping ::
  "dataframe \<Rightarrow> string option \<Rightarrow> (string, string) dict option \<Rightarrow> error + (string, string) dict"
where
  "resolve_mapping df source custom_mapping =
     (case (case source of None \<Rightarrow> detect_source df | Some s \<Rightarrow> Inr s) of
        Inl e \<Rightarrow> Inl e
      | Inr source' \<Rightarrow>
          (case custom_mapping of
             Some (p # ps) \<Rightarrow> Inr (p # ps)
           | _ \<Rightarrow> Inr (get_column_mapping df source')))"

subsection \<open>pandas operations used by the normaliser\<close>

text \<open>Sequencing of statements that may raise.\<close>

fun run_pure :: "('a \<Rightarrow> error + 'a) list \<Rightarrow> 'a \<Rightarrow> error + 'a" where
  "run_pure [] d = Inr d"
| "run_pure (stmt # stmts) d = (case stmt d of Inl e \<Rightarrow> Inl e | Inr d' \<Rightarrow> run_pure stmts d')"

text \<open>\<^verbatim>\<open>df.rename(columns=mapping)\<close>: a label that is a key of the mapping is replaced by
  its value, every other label stays; keys that name no column are ignored.\<close>

definition rename :: "dataframe \<Rightarrow> (string, string) dict \<Rightarrow> dataframe" where
  "rename df mapping =
     df\<lparr>cols := map (\<lambda>(n, c). (case map_of mapping n of Some n' \<Rightarrow> n' | None \<Rightarrow> n, c)) (cols df)\<rparr>"

text \<open>The columns that carry a label, in the order of the frame.\<close>

definition columns_named :: "dataframe \<Rightarrow> string \<Rightarrow> (string \<times> cell list) list" where
  "columns_named df name = filter (\<lambda>c. fst c = name) (cols df)"

text \<open>\<^verbatim>\<open>df[names]\<close> with a list of labels: for each label in turn, every column that
  carries it; \<^verbatim>\<open>KeyError\<close> when a label names no column. The rows (the index) stay.\<close>

definition select_columns :: "dataframe \<Rightarrow> string list \<Rightarrow> error + dataframe" where
  "select_columns df names =
     (if list_all (\<lambda>k. k \<in> set (df_columns df)) names
      then Inr (df\<lparr>cols := concat (map (columns_named df) names)\<rparr>)
      else Inl KeyError)"

text \<open>\<^verbatim>\<open>df[name]\<close> where a Series is needed: \<^verbatim>\<open>KeyError\<close> for a label that names no
  column; a label that names several columns yields a DataFrame, which \<^verbatim>\<open>pd.to_numeric\<close>
  rejects with \<^verbatim>\<open>TypeError\<close>.\<close>

definition get_series :: "dataframe \<Rightarrow> string \<Rightarrow> error + cell list" where
  "get_series df name =
     (case columns_named df name of
        [] \<Rightarrow> Inl KeyError
      | [c] \<Rightarrow> Inr (snd c)
      | _ \<Rightarrow> Inl TypeError)"

text \<open>\<^verbatim>\<open>df[name] = values\<close>: an existing column is overwritten where it stands, a new one is
  appended. (The values assigned in \<^verbatim>\<open>_validate_and_clean\<close> have one entry per row, so
  the length check of pandas never fires.)\<close>

definition set_series :: "dataframe \<Rightarrow> string \<Rightarrow> cell list \<Rightarrow> dataframe" where
  "set_series df name s =
     (if name \<in> set (df_columns df)
      then df\<lparr>cols := map (\<lambda>c. if fst c = name then (name, s) else c) (cols df)\<rparr>
      else df\<lparr>cols := cols df @ [(name, s)]\<rparr>)"

text \<open>\<^verbatim>\<open>pd.to_numeric(s, errors='coerce')\<close>: a number stays, a missing value stays missing,
  a text becomes the number it parses to, or missing when it does not parse.\<close>

definition to_numeric_cell :: "(string \<Rightarrow> real option) \<Rightarrow> cell \<Rightarrow> cell" where
  "to_numeric_cell parse c =
     (case c of
        NA \<Rightarrow> NA
      | Num x \<Rightarrow> Num x
      | Str s \<Rightarrow> (case parse s of Some x \<Rightarrow> Num x | None \<Rightarrow> NA))"

definition to_numeric :: "(string \<Rightarrow> real option) \<Rightarrow> cell list \<Rightarrow> cell list" where
  "to_numeric parse s = map (to_numeric_cell parse) s"

text \<open>The numbers of a numeric Series, missing values skipped.\<close>

fun numbers :: "cell list \<Rightarrow> real list" where
  "numbers [] = []"
| "numbers (Num x # cs) = x # numbers cs"
| "numbers (_ # cs) = numbers cs"

text \<open>\<^verbatim>\<open>s.median()\<close> (\<^verbatim>\<open>skipna=True\<close>): the middle of the sorted numbers, the mean of the two
  middle ones when their count is even, and \<^verbatim>\<open>NaN\<close> when there is none.\<close>

definition median :: "cell list \<Rightarrow> cell" where
  "median s =
     (let vs = sort (numbers s); n = length vs
      in if n = 0 then NA
         else if odd n then Num (vs ! (n div 2))
         else Num ((vs ! (n div 2 - 1) + vs ! (n div 2)) / 2))"

text \<open>\<^verbatim>\<open>s.fillna(v)\<close>; filling with \<^verbatim>\<open>NaN\<close> changes nothing.\<close>

definition fillna :: "cell list \<Rightarrow> cell \<Rightarrow> cell list" where
  "fillna s v = map (\<lambda>c. if c = NA then v else c) s"

text \<open>\<^verbatim>\<open>s.astype('Int64')\<close> on a numeric Series: missing values become \<^verbatim>\<open>pd.NA\<close>, whole
  numbers become integers, and a number with a fractional part raises \<^verbatim>\<open>TypeError\<close>
  (``cannot safely cast non-equivalent float64 to int64'').\<close>

definition is_whole :: "cell \<Rightarrow> bool" where
  "is_whole c = (case c of NA \<Rightarrow> True | Num x \<Rightarrow> of_int (floor x) = x | Str _ \<Rightarrow> False)"

definition astype_Int64 :: "cell list \<Rightarrow> error + cell list" where
  "astype_Int64 s = (if list_all is_whole s then Inr s else Inl TypeError)"

text \<open>\<^verbatim>\<open>s.astype(str)\<close>: every cell becomes a text; a missing value becomes the text
  \<^verbatim>\<open>nan\<close>, a number is printed by \<open>repr\<close>.\<close>

definition astype_str :: "(real \<Rightarrow> string) \<Rightarrow> cell list \<Rightarrow> cell list" where
  "astype_str repr s =
     map (\<lambda>c. case c of NA \<Rightarrow> Str ''nan'' | Num x \<Rightarrow> Str (repr x) | Str t \<Rightarrow> Str t) s"

text \<open>\<^verbatim>\<open>s.apply(f)\<close>: \<open>f\<close> on every cell, stopping at the first exception.\<close>

fun apply_series :: "(cell \<Rightarrow> error + cell) \<Rightarrow> cell list \<Rightarrow> error + cell list" where
  "apply_series f [] = Inr []"
| "apply_series f (c # cs) =
     (case f c of
        Inl e \<Rightarrow> Inl e
      | Inr c' \<Rightarrow> (case apply_series f cs of Inl e \<Rightarrow> Inl e | Inr cs' \<Rightarrow> Inr (c' # cs')))"

text \<open>\<^verbatim>\<open>str.replace(ch, '')\<close> for a single character and \<^verbatim>\<open>str.strip()\<close> (ASCII white
  space: codes 9--13 and 28--32).\<close>

definition remove_char :: "char \<Rightarrow> string \<Rightarrow> string" where
  "remove_char ch s = filter (\<lambda>c. c \<noteq> ch) s"

definition is_space :: "char \<Rightarrow> bool" where
  "is_space c = (let n = (of_char c :: nat) in (9 \<le> n \<and> n \<le> 13) \<or> (28 \<le> n \<and> n \<le> 32))"

definition strip :: "string \<Rightarrow> string" where
  "strip s = rev (dropWhile is_space (rev (dropWhile is_space s)))"

text \<open>\<^verbatim>\<open>df.drop_duplicates(subset=names, keep='first')\<close>: the key of a row is its cells in
  the columns whose label is in \<open>names\<close>; a row is kept when no earlier row has the same
  key (missing values compare equal). \<^verbatim>\<open>KeyError\<close> when a label names no column.\<close>

fun first_mask :: "'a list \<Rightarrow> 'a list \<Rightarrow> bool list" where
  "first_mask seen [] = []"
| "first_mask seen (k # ks) = (k \<notin> set seen) # first_mask (k # seen) ks"

definition filter_rows :: "bool list \<Rightarrow> 'a list \<Rightarrow> 'a list" where
  "filter_rows keep xs = map snd (filter fst (zip keep xs))"

definition row_keys :: "dataframe \<Rightarrow> string list \<Rightarrow> cell list list" where
  "row_keys df names =
     map (\<lambda>i. map (\<lambda>c. snd c ! i) (filter (\<lambda>c. fst c \<in> set names) (cols df))) [0..<nrows df]"

definition drop_duplicates :: "dataframe \<Rightarrow> string list \<Rightarrow> error + dataframe" where
  "drop_duplicates df names =
     (if list_all (\<lambda>k. k \<in> set (df_columns df)) names
      then (let keep = first_mask [] (row_keys df names)
            in Inr \<lparr>nrows = length (filter id keep),
                    cols = map (\<lambda>c. (fst c, filter_rows keep (snd c))) (cols df)\<rparr>)
      else Inl KeyError)"

text \<open>The f-string \<^verbatim>\<open>f"MOV{i+1:05d}"\<close>: decimal digits, padded with zeros to five places.\<close>

fun decimal :: "nat \<Rightarrow> string" where
  "decimal n =
     (if n < 10 then [char_of (48 + n)] else decimal (n div 10) @ [char_of (48 + n mod 10)])"

definition movie_id_of :: "nat \<Rightarrow> cell" where
  "movie_id_of i =
     (let digits = decimal (i + 1)
      in Str (''MOV'' @ replicate (5 - length digits) (CHR ''0'') @ digits))"

subsection \<open>Record normaliser\<close>

text \<open>\<^verbatim>\<open>_apply_mapping\<close>: rename, then keep the columns whose label is a key of the
  standard schema, in the order of the schema.\<close>

definition existing_std_cols :: "dataframe \<Rightarrow> string list" where
  "existing_std_cols df_renamed =
     filter (\<lambda>col. col \<in> set (df_columns df_renamed)) (dict_keys STANDARD_SCHEMA)"

definition apply_mapping :: "dataframe \<Rightarrow> (string, string) dict \<Rightarrow> error + dataframe" where
  "apply_mapping df mapping =
     (let df_renamed = rename df mapping
      in select_columns df_renamed (existing_std_cols df_renamed))"

text \<open>The statements of \<^verbatim>\<open>_validate_and_clean\<close>, each a step from the frame before to the
  frame after.\<close>

definition stmt_drop_duplicates :: "dataframe \<Rightarrow> error + dataframe" where
  "stmt_drop_duplicates df =
     (if ''title'' \<in> set (df_columns df) \<and> ''release_year'' \<in> set (df_columns df)
      then drop_duplicates df [''title'', ''release_year'']
      else Inr df)"

text \<open>\<^verbatim>\<open>df[name] = pd.to_numeric(df[name], errors='coerce')\<close>\<close>

definition stmt_to_numeric :: "(string \<Rightarrow> real option) \<Rightarrow> string \<Rightarrow> dataframe \<Rightarrow> error + dataframe" where
  "stmt_to_numeric parse name df =
     (case get_series df name of
        Inl e \<Rightarrow> Inl e
      | Inr s \<Rightarrow> Inr (set_series df name (to_numeric parse s)))"

text \<open>\<^verbatim>\<open>df[name].fillna(df[name].median(), inplace=True)\<close>\<close>

definition stmt_fillna_median :: "string \<Rightarrow> dataframe \<Rightarrow> error + dataframe" where
  "stmt_fillna_median name df =
     (case get_series df name of
        Inl e \<Rightarrow> Inl e
      | Inr s \<Rightarrow> Inr (set_series df name (fillna s (median s))))"

text \<open>\<^verbatim>\<open>df[name].fillna(0, inplace=True)\<close>\<close>

definition stmt_fillna_zero :: "string \<Rightarrow> dataframe \<Rightarrow> error + dataframe" where
  "stmt_fillna_zero name df =
     (case get_series df name of
        Inl e \<Rightarrow> Inl e
      | Inr s \<Rightarrow> Inr (set_series df name (fillna s (Num 0))))"

text \<open>\<^verbatim>\<open>df[name] = df[name].astype('Int64')\<close>\<close>

definition stmt_astype_Int64 :: "string \<Rightarrow> dataframe \<Rightarrow> error + dataframe" where
  "stmt_astype_Int64 name df =
     (case get_series df name of
        Inl e \<Rightarrow> Inl e
      | Inr s \<Rightarrow> (case astype_Int64 s of Inl e \<Rightarrow> Inl e | Inr s' \<Rightarrow> Inr (set_series df name s')))"

text \<open>An \<^verbatim>\<open>if name in df.columns:\<close> block.\<close>

definition when_col :: "string \<Rightarrow> (dataframe \<Rightarrow> error + dataframe) list \<Rightarrow> dataframe \<Rightarrow> error + dataframe" where
  "when_col name body df = (if name \<in> set (df_columns df) then run_pure body df else Inr df)"

text \<open>\<^verbatim>\<open>df['movie_id'] = [f"MOV{i+1:05d}" for i in range(len(df))]\<close>, when the frame has no
  such column.\<close>

definition stmt_movie_id :: "dataframe \<Rightarrow> error + dataframe" where
  "stmt_movie_id df =
     (if ''movie_id'' \<notin> set (df_columns df)
      then Inr (set_series df ''movie_id'' (map movie_id_of [0..<nrows df]))
      else Inr df)"

text \<open>The lambda applied to the genres: the test \<^verbatim>\<open>pd.notna(x)\<close> is made on the value
  that \<^verbatim>\<open>astype(str)\<close> has already turned into a text. (On a number \<^verbatim>\<open>x.replace\<close> would
  raise \<^verbatim>\<open>AttributeError\<close>.)\<close>

definition genre_lambda :: "cell \<Rightarrow> error + cell" where
  "genre_lambda x =
     (case x of
        Str t \<Rightarrow> Inr (Str (strip (remove_char (CHR 0x27) (remove_char (CHR '']'') (remove_char (CHR ''['') t)))))
      | Num _ \<Rightarrow> Inl AttributeError
      | NA \<Rightarrow> Inr (Str ''Unknown''))"

text \<open>\<^verbatim>\<open>df['genres'] = df['genres'].astype(str).apply(lambda x: ...)\<close>. When the label names
  several columns the lambda receives whole columns and its test raises \<^verbatim>\<open>ValueError\<close>.\<close>

definition stmt_genres :: "(real \<Rightarrow> string) \<Rightarrow> dataframe \<Rightarrow> error + dataframe" where
  "stmt_genres repr df =
     (case get_series df ''genres'' of
        Inl KeyError \<Rightarrow> Inl KeyError
      | Inl _ \<Rightarrow> Inl ValueError
      | Inr s \<Rightarrow>
          (case apply_series genre_lambda (astype_str repr s) of
             Inl e \<Rightarrow> Inl e
           | Inr s' \<Rightarrow> Inr (set_series df ''genres'' s')))"

text \<open>Lines 270--301, the statements that work on the frame in place.\<close>

definition clean_statements ::
  "(string \<Rightarrow> real option) \<Rightarrow> (real \<Rightarrow> string) \<Rightarrow> (dataframe \<Rightarrow> error + dataframe) list"
where
  "clean_statements parse repr =
     [when_col ''rating'' [stmt_to_numeric parse ''rating'', stmt_fillna_median ''rating''],
      when_col ''vote_count'' [stmt_to_numeric parse ''vote_count'', stmt_fillna_zero ''vote_count''],
      when_col ''runtime'' [stmt_to_numeric parse ''runtime'', stmt_fillna_median ''runtime''],
      when_col ''release_year'' [stmt_to_numeric parse ''release_year'', stmt_astype_Int64 ''release_year''],
      when_col ''popularity'' [stmt_to_numeric parse ''popularity'', stmt_fillna_zero ''popularity''],
      stmt_movie_id,
      when_col ''genres'' [stmt_genres repr]]"

text \<open>\<^verbatim>\<open>_validate_and_clean\<close>, as a function of the frame's value.\<close>

definition validate_and_clean ::
  "(string \<Rightarrow> real option) \<Rightarrow> (real \<Rightarrow> string) \<Rightarrow> dataframe \<Rightarrow> error + dataframe"
where
  "validate_and_clean parse repr df = run_pure (stmt_drop_duplicates # clean_statements parse repr) df"

text \<open>\<^verbatim>\<open>load_and_map\<close>; \<open>file\<close> is what \<^verbatim>\<open>pd.read_json\<close> or \<^verbatim>\<open>pd.read_csv\<close> gave for the
  path, an exception of theirs being raised again.\<close>

definition load_and_map ::
  "(string \<Rightarrow> real option) \<Rightarrow> (real \<Rightarrow> string) \<Rightarrow> error + dataframe \<Rightarrow> string option \<Rightarrow>
   (string, string) dict option \<Rightarrow> error + dataframe"
where
  "load_and_map parse repr file source custom_mapping =
     (case file of
        Inl e \<Rightarrow> Inl e
      | Inr df \<Rightarrow>
          (case resolve_mapping df source custom_mapping of
             Inl e \<Rightarrow> Inl e
           | Inr mapping \<Rightarrow>
               (case apply_mapping df mapping of
                  Inl e \<Rightarrow> Inl e
                | Inr df_mapped \<Rightarrow> validate_and_clean parse repr df_mapped)))"

subsection \<open>Object identity\<close>

text \<open>
  Whether a caller's frame is written to depends on which object each statement works
  on. Here the store holds the frames that exist; an object is its position in the
  store. \<^verbatim>\<open>rename\<close>, \<^verbatim>\<open>df[names]\<close>, \<^verbatim>\<open>copy\<close> and \<^verbatim>\<open>drop_duplicates\<close> return a new object;
  column assignment and \<^verbatim>\<open>fillna(inplace=True)\<close> write to the object they are called on.
\<close>

type_synonym store = "dataframe list"

definition new_object :: "store \<Rightarrow> dataframe \<Rightarrow> store \<times> nat" where
  "new_object st d = (st @ [d], length st)"

fun run_in_place :: "(dataframe \<Rightarrow> error + dataframe) list \<Rightarrow> store \<Rightarrow> nat \<Rightarrow> store \<times> (error + nat)" where
  "run_in_place [] st a = (st, Inr a)"
| "run_in_place (stmt # stmts) st a =
     (case stmt (st ! a) of
        Inl e \<Rightarrow> (st, Inl e)
      | Inr d \<Rightarrow> run_in_place stmts (st[a := d]) a)"

text \<open>\<^verbatim>\<open>_apply_mapping\<close> on the object \<open>df\<close>: \<^verbatim>\<open>df.rename(...)\<close>, the selection and its
  \<^verbatim>\<open>.copy()\<close> are three new objects; the last is returned.\<close>

definition apply_mapping_obj :: "store \<Rightarrow> nat \<Rightarrow> (string, string) dict \<Rightarrow> store \<times> (error + nat)" where
  "apply_mapping_obj st df mapping =
     (case new_object st (rename (st ! df) mapping) of
        (st1, df_renamed) \<Rightarrow>
          (case select_columns (st1 ! df_renamed) (existing_std_cols (st1 ! df_renamed)) of
             Inl e \<Rightarrow> (st1, Inl e)
           | Inr selected \<Rightarrow>
               (case new_object st1 selected of
                  (st2, sel) \<Rightarrow>
                    (case new_object st2 (st2 ! sel) of
                       (st3, df_final) \<Rightarrow> (st3, Inr df_final)))))"

text \<open>\<^verbatim>\<open>_validate_and_clean\<close> on the object \<open>df\<close>: line 262 rebinds the name to a copy,
  line 267 to the result of \<^verbatim>\<open>drop_duplicates\<close>; the statements after that write to the
  object the name is bound to.\<close>

definition validate_and_clean_obj ::
  "(string \<Rightarrow> real option) \<Rightarrow> (real \<Rightarrow> string) \<Rightarrow> store \<Rightarrow> nat \<Rightarrow> store \<times> (error + nat)"
where
  "validate_and_clean_obj parse repr st df =
     (case new_object st (st ! df) of
        (st1, df1) \<Rightarrow>
          if ''title'' \<in> set (df_columns (st1 ! df1)) \<and> ''release_year'' \<in> set (df_columns (st1 ! df1))
          then (case drop_duplicates (st1 ! df1) [''title'', ''release_year''] of
                  Inl e \<Rightarrow> (st1, Inl e)
                | Inr d \<Rightarrow>
                    (case new_object st1 d of
                       (st2, df2) \<Rightarrow> run_in_place (clean_statements parse repr) st2 df2))
          else run_in_place (clean_statements parse repr) st1 df1)"

text \<open>Lines 166--170 of \<^verbatim>\<open>load_and_map\<close>, and lines 71--72 of \<^verbatim>\<open>load_real_data.py\<close>: the
  mapping is applied and the result is cleaned.\<close>

definition normalize_obj ::
  "(string \<Rightarrow> real option) \<Rightarrow> (real \<Rightarrow> string) \<Rightarrow> store \<Rightarrow> nat \<Rightarrow> (string, string) dict \<Rightarrow>
   store \<times> (error + nat)"
where
  "normalize_obj parse repr st df mapping =
     (case apply_mapping_obj st df mapping of
        (st1, Inl e) \<Rightarrow> (st1, Inl e)
      | (st1, Inr df_mapped) \<Rightarrow> validate_and_clean_obj parse repr st1 df_mapped)"

subsection \<open>Notions used in the proofs\<close>

text \<open>The common shape of the in-place statements, \<^verbatim>\<open>df[name] = f(df[name])\<close>.\<close>

definition update_series :: "string \<Rightarrow> (cell list \<Rightarrow> error + cell list) \<Rightarrow> dataframe \<Rightarrow> error + dataframe" where
  "update_series name f df =
     (case get_series df name of
        Inl e \<Rightarrow> Inl e
      | Inr s \<Rightarrow> (case f s of Inl e \<Rightarrow> Inl e | Inr s' \<Rightarrow> Inr (set_series df name s')))"

text \<open>A statement leaves the columns labelled \<open>m\<close> as they are.\<close>

definition preserves :: "string \<Rightarrow> (dataframe \<Rightarrow> error + dataframe) \<Rightarrow> bool" where
  "preserves m stmt = (\<forall>df df'. stmt df = Inr df' \<longrightarrow> columns_named df' m = columns_named df m)"

text \<open>A statement keeps the labels and the number of rows.\<close>

definition keeps_shape :: "(dataframe \<Rightarrow> error + dataframe) \<Rightarrow> bool" where
  "keeps_shape stmt =
     (\<forall>df df'. stmt df = Inr df' \<longrightarrow> df_columns df' = df_columns df \<and> nrows df' = nrows df)"

text \<open>The rows that are first occurrences of their key: no earlier row has the same cells in
  the columns labelled by \<open>names\<close>.\<close>

definition first_occurrences :: "dataframe \<Rightarrow> string list \<Rightarrow> nat set" where
  "first_occurrences df names =
     {i. i < nrows df \<and> (\<forall>j<i. row_keys df names ! j \<noteq> row_keys df names ! i)}"

subsection \<open>Example tables\<close>

definition ex_none :: dataframe where
  "ex_none = \<lparr>nrows = 1, cols = [(''foo'', [Num 7])]\<rparr>"

definition ex_single :: dataframe where
  "ex_single = \<lparr>nrows = 1, cols = [(''Title'', [Str ''Heat'']), (''Tconst'', [Str ''tt01''])]\<rparr>"

definition ex_tie :: dataframe where
  "ex_tie = \<lparr>nrows = 1, cols = [(''ID'', [Num 7]), (''Tconst'', [Str ''tt01'']), (''Plot'', [NA])]\<rparr>"

definition ex_aliases :: dataframe where
  "ex_aliases =
     \<lparr>nrows = 1, cols = [(''primary_title'', [Str ''Heat'']), (''original_title'', [Str ''Heat''])]\<rparr>"

text \<open>A table with a critics' rating and an audience score, both listed for \<^verbatim>\<open>rating\<close> in the
  dictionary of \<^verbatim>\<open>rotten_tomatoes\<close>.\<close>

definition ex_scores :: dataframe where
  "ex_scores =
     \<lparr>nrows = 1,
      cols = [(''name'', [Str ''Heat'']), (''rating'', [Num 8]), (''audience_score'', [Num 9])]\<rparr>"

definition ex_title :: dataframe where
  "ex_title = \<lparr>nrows = 1, cols = [(''title'', [Str ''Heat''])]\<rparr>"

text \<open>A number parser and a number printer to run the normaliser with.\<close>

definition ex_parse :: "string \<Rightarrow> real option" where
  "ex_parse = map_of [(''7.5'', 7.5), (''8'', 8), (''9'', 9), (''1999'', 1999), (''2001'', 2001),
                      (''120'', 120), (''90'', 90), (''100'', 100), (''90.5'', 90.5)]"

definition ex_repr :: "real \<Rightarrow> string" where
  "ex_repr x = (if x = 300 then ''300'' else ''0.0'')"

text \<open>Four films; the second repeats title and year of the first with another rating.\<close>

definition ex_movies :: dataframe where
  "ex_movies =
     \<lparr>nrows = 4,
      cols = [(''title'', [Str ''Alien'', Str ''Alien'', Str ''Brazil'', Str ''Casino'']),
              (''release_year'', [Str ''1999'', Str ''1999'', Str ''n/a'', Str ''2001'']),
              (''runtime'', [Str ''120'', Str ''90'', Str ''long'', Str ''100'']),
              (''rating'', [Str ''7.5'', Str ''8'', NA, Str ''9'']),
              (''vote_count'', [NA, NA, NA, NA])]\<rparr>"

definition ex_movies_dedup :: dataframe where
  "ex_movies_dedup =
     \<lparr>nrows = 3,
      cols = [(''title'', [Str ''Alien'', Str ''Brazil'', Str ''Casino'']),
              (''release_year'', [Str ''1999'', Str ''n/a'', Str ''2001'']),
              (''runtime'', [Str ''120'', Str ''long'', Str ''100'']),
              (''rating'', [Str ''7.5'', NA, Str ''9'']),
              (''vote_count'', [NA, NA, NA])]\<rparr>"

definition ex_movies_clean :: dataframe where
  "ex_movies_clean =
     \<lparr>nrows = 3,
      cols = [(''title'', [Str ''Alien'', Str ''Brazil'', Str ''Casino'']),
              (''release_year'', [Num 1999, NA, Num 2001]),
              (''runtime'', [Num 120, Num 110, Num 100]),
              (''rating'', [Num 7.5, Num 8.25, Num 9]),
              (''vote_count'', [Num 0, Num 0, Num 0]),
              (''movie_id'', [Str ''MOV00001'', Str ''MOV00002'', Str ''MOV00003''])]\<rparr>"

text \<open>A table and a caller's mapping with a destination outside the schema.\<close>

definition ex_studio :: dataframe where
  "ex_studio = \<lparr>nrows = 1, cols = [(''Film Name'', [Str ''Heat'']), (''Studio'', [Str ''Regency''])]\<rparr>"

definition ex_studio_map :: "(string, string) dict" where
  "ex_studio_map = [(''Film Name'', ''title''), (''Studio'', ''studio'')]"

text \<open>Genres as the text of a Python list, as a plain text, and missing.\<close>

definition ex_genres :: dataframe where
  "ex_genres =
     \<lparr>nrows = 3,
      cols = [(''movie_id'', [Str ''m1'', Str ''m2'', Str ''m3'']),
              (''genres'', [Str (CHR ''['' # CHR 0x27 # ''Action'' @ CHR 0x27 # '', '' @
                                 CHR 0x27 # ''Drama'' @ [CHR 0x27, CHR '']'']),
                           Str '' Comedy '', NA])]\<rparr>"

text \<open>A raw table whose titles are numbers and whose durations have a fractional part.\<close>

definition ex_raw_types :: dataframe where
  "ex_raw_types =
     \<lparr>nrows = 2,
      cols = [(''title'', [Num 300, Num 1917]),
              (''duration'', [Str ''90.5'', Str ''120''])]\<rparr>"

definition ex_genres_clean :: dataframe where
  "ex_genres_clean =
     \<lparr>nrows = 3,
      cols = [(''movie_id'', [Str ''m1'', Str ''m2'', Str ''m3'']),
              (''genres'', [Str ''Action, Drama'', Str ''Comedy'', Str ''nan''])]\<rparr>"

section \<open>Source detection\<close>

lemma max_from_split:
  "(max_from f b xs = b \<and> (\<forall>x\<in>set xs. f x \<le> f b)) \<or>
   (f b < f (max_from f b xs) \<and>
    (\<exists>ys zs. xs = ys @ max_from f b xs # zs \<and> (\<forall>y\<in>set ys. f y < f (max_from f b xs)) \<and>
       (\<forall>z\<in>set zs. f z \<le> f (max_from f b xs))))"
proof (induction xs arbitrary: b)
  case Nil
  then show ?case by simp
next
  case (Cons x xs)
  show ?case
  proof (cases "f b < f x")
    case True
    then have r: "max_from f b (x # xs) = max_from f x xs" by simp
    from Cons.IH [of x] show ?thesis
    proof
      assume "max_from f x xs = x \<and> (\<forall>y\<in>set xs. f y \<le> f x)"
      then have "f b < f (max_from f x xs) \<and> x # xs = [] @ max_from f x xs # xs \<and>
          (\<forall>y\<in>set []. f y < f (max_from f x xs)) \<and> (\<forall>z\<in>set xs. f z \<le> f (max_from f x xs))"
        using True by simp
      then show ?thesis unfolding r by blast
    next
      assume "f x < f (max_from f x xs) \<and>
        (\<exists>ys zs. xs = ys @ max_from f x xs # zs \<and> (\<forall>y\<in>set ys. f y < f (max_from f x xs)) \<and>
          (\<forall>z\<in>set zs. f z \<le> f (max_from f x xs)))"
      then obtain ys zs where h: "f x < f (max_from f x xs)" "xs = ys @ max_from f x xs # zs"
        "\<forall>y\<in>set ys. f y < f (max_from f x xs)" "\<forall>z\<in>set zs. f z \<le> f (max_from f x xs)"
        by blast
      have "x # xs = (x # ys) @ max_from f x xs # zs" using h(2) by simp
      moreover have "\<forall>y\<in>set (x # ys). f y < f (max_from f x xs)" using h(1,3) by simp
      moreover have "f b < f (max_from f x xs)" using True h(1) by simp
      ultimately show ?thesis unfolding r using h(4) by blast
    qed
  next
    case False
    then have r: "max_from f b (x # xs) = max_from f b xs" by simp
    from Cons.IH [of b] show ?thesis
    proof
      assume "max_from f b xs = b \<and> (\<forall>y\<in>set xs. f y \<le> f b)"
      then show ?thesis unfolding r using False by auto
    next
      assume "f b < f (max_from f b xs) \<and>
        (\<exists>ys zs. xs = ys @ max_from f b xs # zs \<and> (\<forall>y\<in>set ys. f y < f (max_from f b xs)) \<and>
          (\<forall>z\<in>set zs. f z \<le> f (max_from f b xs)))"
      then obtain ys zs where h: "f b < f (max_from f b xs)" "xs = ys @ max_from f b xs # zs"
        "\<forall>y\<in>set ys. f y < f (max_from f b xs)" "\<forall>z\<in>set zs. f z \<le> f (max_from f b xs)"
        by blast
      have "x # xs = (x # ys) @ max_from f b xs # zs" using h(2) by simp
      moreover have "\<forall>y\<in>set (x # ys). f y < f (max_from f b xs)" using h(1,3) False by auto
      ultimately show ?thesis unfolding r using h(1,4) by blast
    qed
  qed
qed

lemma py_max_first:
  assumes "py_max f xs = Inr r"
  shows "\<exists>ys zs. xs = ys @ r # zs \<and> (\<forall>y\<in>set ys. f y < f r) \<and> (\<forall>z\<in>set zs. f z \<le> f r)"
proof (cases xs)
  case Nil
  with assms show ?thesis by simp
next
  case (Cons b bs)
  with assms have r: "r = max_from f b bs" by simp
  from max_from_split [of f b bs] show ?thesis
  proof
    assume "max_from f b bs = b \<and> (\<forall>x\<in>set bs. f x \<le> f b)"
    then have "xs = [] @ r # bs \<and> (\<forall>y\<in>set []. f y < f r) \<and> (\<forall>z\<in>set bs. f z \<le> f r)"
      using Cons r by simp
    then show ?thesis by blast
  next
    assume "f b < f (max_from f b bs) \<and>
      (\<exists>ys zs. bs = ys @ max_from f b bs # zs \<and> (\<forall>y\<in>set ys. f y < f (max_from f b bs)) \<and>
        (\<forall>z\<in>set zs. f z \<le> f (max_from f b bs)))"
    then obtain ys zs where h: "f b < f r" "bs = ys @ r # zs" "\<forall>y\<in>set ys. f y < f r"
      "\<forall>z\<in>set zs. f z \<le> f r"
      unfolding r by blast
    have "xs = (b # ys) @ r # zs" using Cons h(2) by simp
    moreover have "\<forall>y\<in>set (b # ys). f y < f r" using h(1,3) by simp
    ultimately show ?thesis using h(4) by blast
  qed
qed

lemma scores_keys: "dict_keys (scores columns) = dict_keys source_signatures"
  by (simp add: scores_def dict_keys_def source_signatures_def)

lemma source_names: "dict_keys source_signatures =
  [''imdb'', ''tmdb'', ''movielens'', ''rotten_tomatoes'', ''letterboxd'', ''kaggle'']"
  by (simp add: dict_keys_def source_signatures_def)

lemma scores_get_card:
  assumes "(n, sig) \<in> set source_signatures"
  shows "scores_get columns n = card (sig \<inter> lower ` set columns)"
  using assms
  by (auto simp add: scores_get_def scores_def source_signatures_def match_count_def)

lemma py_max_source_names: "\<exists>r. py_max f (dict_keys source_signatures) = Inr r"
  unfolding source_names by (simp only: py_max.simps) blast
text \<open>
  Claim C2. \<^verbatim>\<open>_detect_source\<close> always returns a source. The score of a source is the number
  of its signature columns among the lower-cased column names. When every score is zero the
  result is \<^verbatim>\<open>kaggle\<close>. Otherwise the result has the greatest score, and every source
  declared before it in the signature table has a strictly smaller score, so that the
  first-declared source wins a tie. In particular, when the table has signature columns of
  exactly one source, that source is returned.
\<close>

theorem detect_source_spec:
  "\<exists>s. detect_source df = Inr s \<and>
     (\<forall>n sig. (n, sig) \<in> set source_signatures \<longrightarrow>
        scores_get (df_columns df) n = card (sig \<inter> lower ` set (df_columns df))) \<and>
     ((\<forall>n\<in>set (dict_keys source_signatures). scores_get (df_columns df) n = 0) \<longrightarrow> s = ''kaggle'') \<and>
     ((\<exists>n\<in>set (dict_keys source_signatures). 0 < scores_get (df_columns df) n) \<longrightarrow>
        (\<exists>before after. dict_keys source_signatures = before @ s # after \<and>
           (\<forall>n\<in>set before. scores_get (df_columns df) n < scores_get (df_columns df) s) \<and>
           (\<forall>n\<in>set after. scores_get (df_columns df) n \<le> scores_get (df_columns df) s))) \<and>
     (\<forall>n\<in>set (dict_keys source_signatures).
        0 < scores_get (df_columns df) n \<and>
        (\<forall>m\<in>set (dict_keys source_signatures). m \<noteq> n \<longrightarrow> scores_get (df_columns df) m = 0) \<longrightarrow>
        s = n)"
proof -
  define names where "names = dict_keys source_signatures"
  define f where "f = scores_get (df_columns df)"
  obtain r where r: "py_max f names = Inr r"
    unfolding names_def using py_max_source_names by blast
  from py_max_first [OF r] obtain ys zs where
    split: "names = ys @ r # zs" and lt: "\<forall>y\<in>set ys. f y < f r" and le: "\<forall>z\<in>set zs. f z \<le> f r"
    by blast
  have r_in: "r \<in> set names" using split by simp
  have max: "f n \<le> f r" if "n \<in> set names" for n
  proof -
    from that have "n \<in> set ys \<or> n = r \<or> n \<in> set zs" using split by auto
    then show ?thesis using lt le by (auto simp: less_imp_le)
  qed
  define s where "s = (if 0 < f r then r else ''kaggle'')"
  have det: "detect_source df = Inr s"
    using r unfolding s_def f_def names_def by (simp add: detect_source_def scores_keys)
  have zero: "(\<forall>n\<in>set names. f n = 0) \<longrightarrow> s = ''kaggle''"
  proof
    assume "\<forall>n\<in>set names. f n = 0"
    with r_in have "f r = 0" by blast
    then show "s = ''kaggle''" unfolding s_def by simp
  qed
  have pos: "(\<exists>n\<in>set names. 0 < f n) \<longrightarrow>
      (\<exists>before after. names = before @ s # after \<and>
         (\<forall>n\<in>set before. f n < f s) \<and> (\<forall>n\<in>set after. f n \<le> f s))"
  proof
    assume "\<exists>n\<in>set names. 0 < f n"
    then obtain n where n: "n \<in> set names" "0 < f n" by blast
    from max [OF n(1)] n(2) have "0 < f r" by simp
    then have "s = r" unfolding s_def by simp
    with split lt le have "names = ys @ s # zs \<and> (\<forall>n\<in>set ys. f n < f s) \<and> (\<forall>n\<in>set zs. f n \<le> f s)"
      by simp
    then show "\<exists>before after. names = before @ s # after \<and>
         (\<forall>n\<in>set before. f n < f s) \<and> (\<forall>n\<in>set after. f n \<le> f s)"
      by (intro exI)
  qed
  have single: "\<forall>n\<in>set names. 0 < f n \<and> (\<forall>m\<in>set names. m \<noteq> n \<longrightarrow> f m = 0) \<longrightarrow> s = n"
  proof (intro ballI impI)
    fix n assume n: "n \<in> set names" and h: "0 < f n \<and> (\<forall>m\<in>set names. m \<noteq> n \<longrightarrow> f m = 0)"
    from max [OF n] h have pos_r: "0 < f r" by simp
    have "r = n"
    proof (rule ccontr)
      assume "r \<noteq> n"
      with h r_in have "f r = 0" by blast
      with pos_r show False by simp
    qed
    with pos_r show "s = n" unfolding s_def by simp
  qed
  have card: "\<forall>n sig. (n, sig) \<in> set source_signatures \<longrightarrow>
      f n = card (sig \<inter> lower ` set (df_columns df))"
    unfolding f_def using scores_get_card by blast
  have "detect_source df = Inr s \<and>
     (\<forall>n sig. (n, sig) \<in> set source_signatures \<longrightarrow> f n = card (sig \<inter> lower ` set (df_columns df))) \<and>
     ((\<forall>n\<in>set names. f n = 0) \<longrightarrow> s = ''kaggle'') \<and>
     ((\<exists>n\<in>set names. 0 < f n) \<longrightarrow>
        (\<exists>before after. names = before @ s # after \<and>
           (\<forall>n\<in>set before. f n < f s) \<and> (\<forall>n\<in>set after. f n \<le> f s))) \<and>
     (\<forall>n\<in>set names. 0 < f n \<and> (\<forall>m\<in>set names. m \<noteq> n \<longrightarrow> f m = 0) \<longrightarrow> s = n)"
    using det card zero pos single by (intro conjI)
  then show ?thesis unfolding f_def names_def by (rule exI)
qed

text \<open>Three tables: no signature column at all; columns of \<^verbatim>\<open>imdb\<close> only; one column of
  \<^verbatim>\<open>imdb\<close> and one of \<^verbatim>\<open>tmdb\<close>, a tie that the first-declared \<^verbatim>\<open>imdb\<close> wins.\<close>

theorem detect_source_spec_witness:
  "detect_source ex_none = Inr ''kaggle'' \<and> detect_source ex_single = Inr ''imdb'' \<and>
   detect_source ex_tie = Inr ''imdb'' \<and>
   scores_get (df_columns ex_tie) ''imdb'' = 1 \<and> scores_get (df_columns ex_tie) ''tmdb'' = 1"
proof -
  have z: "\<forall>n\<in>set (dict_keys source_signatures). scores_get (df_columns ex_none) n = 0"
    unfolding source_names by code_simp
  have a: "detect_source ex_none = Inr ''kaggle''"
    using detect_source_spec [of ex_none] z by auto
  have i: "''imdb'' \<in> set (dict_keys source_signatures)"
    unfolding source_names by simp
  have o: "0 < scores_get (df_columns ex_single) ''imdb'' \<and>
      (\<forall>m\<in>set (dict_keys source_signatures). m \<noteq> ''imdb'' \<longrightarrow> scores_get (df_columns ex_single) m = 0)"
    unfolding source_names by code_simp
  have b: "detect_source ex_single = Inr ''imdb''"
    using detect_source_spec [of ex_single] i o by blast
  have t1: "scores_get (df_columns ex_tie) ''imdb'' = 1" by code_simp
  have t2: "scores_get (df_columns ex_tie) ''tmdb'' = 1" by code_simp
  have le1: "\<forall>n\<in>set (dict_keys source_signatures). scores_get (df_columns ex_tie) n \<le> 1"
    unfolding source_names by code_simp
  have p: "\<exists>n\<in>set (dict_keys source_signatures). 0 < scores_get (df_columns ex_tie) n"
    using i t1 by force
  from detect_source_spec [of ex_tie] p obtain s before after where
    d: "detect_source ex_tie = Inr s" and
    split: "dict_keys source_signatures = before @ s # after" and
    lt: "\<forall>n\<in>set before. scores_get (df_columns ex_tie) n < scores_get (df_columns ex_tie) s"
    by blast
  have "s = ''imdb''"
  proof (cases before)
    case Nil
    with split show ?thesis by (simp add: source_names)
  next
    case (Cons x xs)
    with split have "x = ''imdb''" by (simp add: source_names)
    with Cons lt have "1 < scores_get (df_columns ex_tie) s" using t1 by simp
    moreover have "s \<in> set (dict_keys source_signatures)" using split by simp
    ultimately show ?thesis using le1 by fastforce
  qed
  with d have c: "detect_source ex_tie = Inr ''imdb''" by simp
  from a b c t1 t2 show ?thesis by simp
qed


section \<open>Column mapping\<close>

lemma detect_source_total: "\<exists>s. detect_source df = Inr s"
proof -
  obtain r where "py_max (scores_get (df_columns df)) (dict_keys source_signatures) = Inr r"
    using py_max_source_names by blast
  then show ?thesis by (simp add: detect_source_def scores_keys)
qed

text \<open>
  Claim C1, evaluated. On a table that has both \<^verbatim>\<open>primary_title\<close> and \<^verbatim>\<open>original_title\<close>,
  with the source \<^verbatim>\<open>imdb\<close> given or detected, the exact-dictionary loop enters both columns
  for the one field \<^verbatim>\<open>title\<close>, so the values of the mapping are not distinct. On a table
  with \<^verbatim>\<open>rating\<close> and \<^verbatim>\<open>audience_score\<close> the same happens for the field \<^verbatim>\<open>rating\<close>; the
  renamed table then has two columns of that label, and \<^verbatim>\<open>load_and_map\<close> ends in the
  \<^verbatim>\<open>TypeError\<close> of \<^verbatim>\<open>pd.to_numeric\<close>.
\<close>

theorem get_column_mapping_two_titles:
  "get_column_mapping ex_aliases ''imdb'' =
     [(''primary_title'', ''title''), (''original_title'', ''title'')] \<and>
   resolve_mapping ex_aliases None None =
     Inr [(''primary_title'', ''title''), (''original_title'', ''title'')] \<and>
   \<not> distinct (dict_values (get_column_mapping ex_aliases ''imdb'')) \<and>
   resolve_mapping ex_scores None None =
     Inr [(''name'', ''title''), (''rating'', ''rating''), (''audience_score'', ''rating'')] \<and>
   load_and_map ex_parse ex_repr (Inr ex_scores) None None = Inl TypeError"
  by code_simp

text \<open>
  Claim C3 as stated fails for the empty dictionary: \<^verbatim>\<open>if custom_mapping:\<close> is false for it,
  and the mapping is inferred from the columns instead.
\<close>

theorem resolve_mapping_empty_custom:
  "resolve_mapping ex_title None (Some []) \<noteq> Inr []"
  by code_simp

text \<open>
  Claim C3, amended: a caller-supplied mapping that is not empty is returned exactly as it
  is, whatever the table and whatever the source hint; no column name and no registry entry
  enters the result.
\<close>

theorem resolve_mapping_custom:
  assumes "custom_mapping \<noteq> []"
  shows "resolve_mapping df source (Some custom_mapping) = Inr custom_mapping"
proof -
  obtain p ps where c: "custom_mapping = p # ps"
    using assms by (cases custom_mapping) auto
  show ?thesis
  proof (cases source)
    case None
    obtain s where "detect_source df = Inr s" using detect_source_total by blast
    with None c show ?thesis by (simp add: resolve_mapping_def)
  next
    case (Some s)
    with c show ?thesis by (simp add: resolve_mapping_def)
  qed
qed

text \<open>The mapping of the module's own example, with and without a source hint.\<close>

theorem resolve_mapping_custom_witness:
  "[(''Film Name'', ''title''), (''IMDB Score'', ''rating'')] \<noteq> [] \<and>
   resolve_mapping ex_title None (Some [(''Film Name'', ''title''), (''IMDB Score'', ''rating'')]) =
     Inr [(''Film Name'', ''title''), (''IMDB Score'', ''rating'')] \<and>
   resolve_mapping ex_title (Some ''imdb'') (Some [(''Film Name'', ''title''), (''IMDB Score'', ''rating'')]) =
     Inr [(''Film Name'', ''title''), (''IMDB Score'', ''rating'')]"
  using resolve_mapping_custom [of "[(''Film Name'', ''title''), (''IMDB Score'', ''rating'')]" ex_title None]
    resolve_mapping_custom [of "[(''Film Name'', ''title''), (''IMDB Score'', ''rating'')]" ex_title "Some ''imdb''"]
  by simp

section \<open>Statements and the columns they touch\<close>

lemma in_columns_iff: "n \<in> set (df_columns df) \<longleftrightarrow> columns_named df n \<noteq> []"
  by (auto simp add: df_columns_def columns_named_def filter_empty_conv)

lemma get_series_Inr_iff:
  "get_series df n = Inr s \<longleftrightarrow> (\<exists>c. columns_named df n = [c] \<and> snd c = s)"
  by (auto simp add: get_series_def split: list.splits)

lemma get_series_cong:
  "columns_named df' n = columns_named df n \<Longrightarrow> get_series df' n = get_series df n"
  by (simp add: get_series_def)

lemma columns_named_set_series_other:
  "m \<noteq> n \<Longrightarrow> columns_named (set_series df n s) m = columns_named df m"
proof -
  have "filter (\<lambda>c. fst c = m) (map (\<lambda>c. if fst c = n then (n, s) else c) xs) =
        filter (\<lambda>c. fst c = m) xs" if "m \<noteq> n" for xs :: "(string \<times> cell list) list"
    using that by (induction xs) auto
  then show "m \<noteq> n \<Longrightarrow> ?thesis"
    by (simp add: set_series_def columns_named_def)
qed

lemma columns_named_set_series_same:
  "n \<in> set (df_columns df) \<Longrightarrow>
   columns_named (set_series df n s) n = map (\<lambda>c. (n, s)) (columns_named df n)"
proof -
  have "filter (\<lambda>c. fst c = n) (map (\<lambda>c. if fst c = n then (n, s) else c) xs) =
        map (\<lambda>c. (n, s)) (filter (\<lambda>c. fst c = n) xs)" for xs :: "(string \<times> cell list) list"
    by (induction xs) auto
  then show "n \<in> set (df_columns df) \<Longrightarrow> ?thesis"
    by (simp add: set_series_def columns_named_def)
qed

lemma columns_named_set_series_new:
  "n \<notin> set (df_columns df) \<Longrightarrow> columns_named (set_series df n s) n = [(n, s)]"
  by (auto simp add: set_series_def columns_named_def df_columns_def filter_empty_conv)

lemma nrows_set_series: "nrows (set_series df n s) = nrows df"
  by (simp add: set_series_def)

lemma df_columns_set_series:
  "df_columns (set_series df n s) =
     (if n \<in> set (df_columns df) then df_columns df else df_columns df @ [n])"
proof -
  have "map fst (map (\<lambda>c. if fst c = n then (n, s) else c) xs) = map fst xs"
    for xs :: "(string \<times> cell list) list"
    by (induction xs) auto
  then show ?thesis by (simp add: set_series_def df_columns_def)
qed

lemma get_series_set_series:
  assumes "get_series df n = Inr s"
  shows "get_series (set_series df n s') n = Inr s'"
proof -
  from assms obtain c where c: "columns_named df n = [c]"
    by (auto simp add: get_series_Inr_iff)
  then have "n \<in> set (df_columns df)" by (simp add: in_columns_iff)
  then have "columns_named (set_series df n s') n = [(n, s')]"
    using c by (simp add: columns_named_set_series_same)
  then show ?thesis by (simp add: get_series_Inr_iff)
qed

lemma update_series_Inr:
  assumes "update_series n f df = Inr df'"
  shows "\<exists>s s'. get_series df n = Inr s \<and> f s = Inr s' \<and> df' = set_series df n s'"
  using assms by (auto simp add: update_series_def split: sum.splits)

lemma stmt_to_numeric_update:
  "stmt_to_numeric parse name = update_series name (\<lambda>s. Inr (to_numeric parse s))"
  by (auto simp add: stmt_to_numeric_def update_series_def fun_eq_iff split: sum.splits)

lemma stmt_fillna_median_update:
  "stmt_fillna_median name = update_series name (\<lambda>s. Inr (fillna s (median s)))"
  by (auto simp add: stmt_fillna_median_def update_series_def fun_eq_iff split: sum.splits)

lemma stmt_fillna_zero_update:
  "stmt_fillna_zero name = update_series name (\<lambda>s. Inr (fillna s (Num 0)))"
  by (auto simp add: stmt_fillna_zero_def update_series_def fun_eq_iff split: sum.splits)

lemma stmt_astype_Int64_update:
  "stmt_astype_Int64 name = update_series name astype_Int64"
  by (auto simp add: stmt_astype_Int64_def update_series_def fun_eq_iff split: sum.splits)

lemma run_pure_Cons_Inr:
  "run_pure (stmt # stmts) d = Inr out \<longleftrightarrow> (\<exists>d'. stmt d = Inr d' \<and> run_pure stmts d' = Inr out)"
  by (auto split: sum.splits)

lemma run_pure_append_Inr:
  "run_pure (xs @ ys) d = Inr out \<longleftrightarrow> (\<exists>d'. run_pure xs d = Inr d' \<and> run_pure ys d' = Inr out)"
  by (induction xs arbitrary: d) (auto split: sum.splits)

lemma preserves_run:
  assumes "list_all (preserves m) stmts" and "run_pure stmts df = Inr df'"
  shows "columns_named df' m = columns_named df m"
  using assms
proof (induction stmts arbitrary: df)
  case Nil
  then show ?case by simp
next
  case (Cons stmt stmts)
  from Cons.prems(2) obtain d where d: "stmt df = Inr d" "run_pure stmts d = Inr df'"
    by (auto split: sum.splits)
  from Cons.prems(1) d(1) have "columns_named d m = columns_named df m"
    by (simp add: preserves_def)
  moreover from Cons.IH [OF _ d(2)] Cons.prems(1) have "columns_named df' m = columns_named d m"
    by simp
  ultimately show ?case by simp
qed

lemma preserves_update_series: "m \<noteq> n \<Longrightarrow> preserves m (update_series n f)"
  unfolding preserves_def
  by (auto dest!: update_series_Inr simp add: columns_named_set_series_other)

lemma preserves_when_col: "list_all (preserves m) body \<Longrightarrow> preserves m (when_col n body)"
  unfolding preserves_def [of m "when_col n body"]
  by (auto simp add: when_col_def preserves_run split: if_splits)

lemma preserves_stmt_movie_id: "m \<noteq> ''movie_id'' \<Longrightarrow> preserves m stmt_movie_id"
  unfolding preserves_def
  by (auto simp add: stmt_movie_id_def columns_named_set_series_other split: if_splits)

lemma stmt_genres_Inr:
  "stmt_genres repr df = Inr df' \<longleftrightarrow>
   update_series ''genres'' (\<lambda>s. apply_series genre_lambda (astype_str repr s)) df = Inr df'"
  by (auto simp add: stmt_genres_def update_series_def split: sum.splits error.splits)

section \<open>What the cleaning statements do to each field\<close>

lemma preserves_stmt_genres: "m \<noteq> ''genres'' \<Longrightarrow> preserves m (stmt_genres repr)"
  using preserves_update_series [of m "''genres''"]
  unfolding preserves_def by (simp add: stmt_genres_Inr)

lemma run_pure_focus:
  assumes "run_pure (pre @ stmt # post) d = Inr out"
    and "list_all (preserves m) pre" and "list_all (preserves m) post"
  shows "\<exists>d1 d2. columns_named d1 m = columns_named d m \<and> stmt d1 = Inr d2 \<and>
           columns_named out m = columns_named d2 m"
proof -
  from assms(1) obtain d1 where d1: "run_pure pre d = Inr d1" "run_pure (stmt # post) d1 = Inr out"
    by (auto simp add: run_pure_append_Inr)
  from d1(2) obtain d2 where d2: "stmt d1 = Inr d2" "run_pure post d2 = Inr out"
    by (auto split: sum.splits)
  have "columns_named d1 m = columns_named d m" using preserves_run [OF assms(2) d1(1)] .
  moreover have "columns_named out m = columns_named d2 m" using preserves_run [OF assms(3) d2(2)] .
  ultimately show ?thesis using d2(1) by blast
qed

lemma block_two_updates:
  assumes "when_col n [update_series n f, update_series n g] df = Inr df'"
    and "n \<in> set (df_columns df)"
  shows "\<exists>s s' s''. get_series df n = Inr s \<and> f s = Inr s' \<and> g s' = Inr s'' \<and>
           get_series df' n = Inr s''"
proof -
  from assms obtain d1 where d1: "update_series n f df = Inr d1" "update_series n g d1 = Inr df'"
    by (auto simp add: when_col_def split: sum.splits)
  from update_series_Inr [OF d1(1)] obtain s s' where
    s: "get_series df n = Inr s" "f s = Inr s'" "d1 = set_series df n s'" by blast
  have g1: "get_series d1 n = Inr s'" using s(1,3) by (simp add: get_series_set_series)
  from update_series_Inr [OF d1(2)] obtain t t' where
    t: "get_series d1 n = Inr t" "g t = Inr t'" "df' = set_series d1 n t'" by blast
  from g1 t(1) have "t = s'" by simp
  moreover have "get_series df' n = Inr t'" using t(1,3) by (simp add: get_series_set_series)
  ultimately show ?thesis using s(1,2) t(2) by blast
qed

lemma block_one_update:
  assumes "when_col n [update_series n f] df = Inr df'"
    and "n \<in> set (df_columns df)"
  shows "\<exists>s s'. get_series df n = Inr s \<and> f s = Inr s' \<and> get_series df' n = Inr s'"
proof -
  from assms have d1: "update_series n f df = Inr df'"
    by (auto simp add: when_col_def split: sum.splits)
  from update_series_Inr [OF d1] obtain s s' where
    s: "get_series df n = Inr s" "f s = Inr s'" "df' = set_series df n s'" by blast
  then show ?thesis by (auto simp add: get_series_set_series)
qed

lemma when_col_absent: "n \<notin> set (df_columns df) \<Longrightarrow> when_col n body df = Inr df"
  by (simp add: when_col_def)

lemma focus_two_updates:
  assumes run: "run_pure (pre @ when_col n [update_series n f, update_series n g] # post) d = Inr out"
    and pre: "list_all (preserves n) pre" and post: "list_all (preserves n) post"
    and inout: "n \<in> set (df_columns out)"
  shows "\<exists>s s' s''. get_series d n = Inr s \<and> f s = Inr s' \<and> g s' = Inr s'' \<and>
           get_series out n = Inr s''"
proof -
  from run_pure_focus [OF run pre post] obtain d1 d2 where
    d: "columns_named d1 n = columns_named d n"
       "when_col n [update_series n f, update_series n g] d1 = Inr d2"
       "columns_named out n = columns_named d2 n"
    by blast
  have in1: "n \<in> set (df_columns d1)"
  proof (rule ccontr)
    assume a: "n \<notin> set (df_columns d1)"
    then have "d2 = d1" using d(2) by (simp add: when_col_absent)
    with a d(3) inout show False by (simp add: in_columns_iff)
  qed
  from block_two_updates [OF d(2) in1] obtain s s' s'' where
    s: "get_series d1 n = Inr s" "f s = Inr s'" "g s' = Inr s''" "get_series d2 n = Inr s''"
    by blast
  have "get_series d n = Inr s" using s(1) get_series_cong [OF d(1)] by simp
  moreover have "get_series out n = Inr s''" using s(4) get_series_cong [OF d(3)] by simp
  ultimately show ?thesis using s(2,3) by blast
qed

lemma focus_one_update:
  assumes run: "run_pure (pre @ when_col n [update_series n f] # post) d = Inr out"
    and pre: "list_all (preserves n) pre" and post: "list_all (preserves n) post"
    and inout: "n \<in> set (df_columns out)"
  shows "\<exists>s s'. get_series d n = Inr s \<and> f s = Inr s' \<and> get_series out n = Inr s'"
proof -
  from run_pure_focus [OF run pre post] obtain d1 d2 where
    d: "columns_named d1 n = columns_named d n"
       "when_col n [update_series n f] d1 = Inr d2"
       "columns_named out n = columns_named d2 n"
    by blast
  have in1: "n \<in> set (df_columns d1)"
  proof (rule ccontr)
    assume a: "n \<notin> set (df_columns d1)"
    then have "d2 = d1" using d(2) by (simp add: when_col_absent)
    with a d(3) inout show False by (simp add: in_columns_iff)
  qed
  from block_one_update [OF d(2) in1] obtain s s' where
    s: "get_series d1 n = Inr s" "f s = Inr s'" "get_series d2 n = Inr s'"
    by blast
  have "get_series d n = Inr s" using s(1) get_series_cong [OF d(1)] by simp
  moreover have "get_series out n = Inr s'" using s(3) get_series_cong [OF d(3)] by simp
  ultimately show ?thesis using s(2) by blast
qed

lemma fillna_to_numeric:
  "fillna (to_numeric parse s) v =
   map (\<lambda>c. if to_numeric_cell parse c = NA then v else to_numeric_cell parse c) s"
  by (simp add: fillna_def to_numeric_def)

lemmas stmt_updates =
  stmt_to_numeric_update stmt_fillna_median_update stmt_fillna_zero_update stmt_astype_Int64_update

lemmas preserves_intros =
  preserves_when_col preserves_update_series preserves_stmt_movie_id preserves_stmt_genres

lemma clean_rating:
  assumes "run_pure (clean_statements parse repr) d = Inr out" and "''rating'' \<in> set (df_columns out)"
  shows "\<exists>s. get_series d ''rating'' = Inr s \<and>
           get_series out ''rating'' = Inr (fillna (to_numeric parse s) (median (to_numeric parse s)))"
proof -
  have run: "run_pure ([] @ when_col ''rating'' [update_series ''rating'' (\<lambda>s. Inr (to_numeric parse s)),
        update_series ''rating'' (\<lambda>s. Inr (fillna s (median s)))] # tl (clean_statements parse repr)) d = Inr out"
    using assms(1) by (simp add: clean_statements_def stmt_updates)
  have post: "list_all (preserves ''rating'') (tl (clean_statements parse repr))"
    by (simp add: clean_statements_def stmt_updates preserves_intros)
  from focus_two_updates [OF run _ post assms(2)] show ?thesis by auto
qed


lemma clean_vote_count:
  assumes "run_pure (clean_statements parse repr) d = Inr out" and "''vote_count'' \<in> set (df_columns out)"
  shows "\<exists>s. get_series d ''vote_count'' = Inr s \<and>
           get_series out ''vote_count'' = Inr (fillna (to_numeric parse s) (Num 0))"
proof -
  define pre where "pre = [when_col ''rating'' [stmt_to_numeric parse ''rating'', stmt_fillna_median ''rating'']]"
  define post where "post = [when_col ''runtime'' [stmt_to_numeric parse ''runtime'', stmt_fillna_median ''runtime''], when_col ''release_year'' [stmt_to_numeric parse ''release_year'', stmt_astype_Int64 ''release_year''], when_col ''popularity'' [stmt_to_numeric parse ''popularity'', stmt_fillna_zero ''popularity''], stmt_movie_id, when_col ''genres'' [stmt_genres repr]]"
  have run: "run_pure (pre @ when_col ''vote_count'' [update_series ''vote_count'' (\<lambda>s. Inr (to_numeric parse s)),
        update_series ''vote_count'' (\<lambda>s. Inr (fillna s (Num 0)))] # post) d = Inr out"
    using assms(1) by (simp add: clean_statements_def pre_def post_def stmt_updates)
  have pre: "list_all (preserves ''vote_count'') pre"
    by (simp add: pre_def stmt_updates preserves_intros)
  have post: "list_all (preserves ''vote_count'') post"
    by (simp add: post_def stmt_updates preserves_intros)
  from focus_two_updates [OF run pre post assms(2)] show ?thesis
    by (auto simp add: astype_Int64_def split: if_splits)
qed

lemma clean_runtime:
  assumes "run_pure (clean_statements parse repr) d = Inr out" and "''runtime'' \<in> set (df_columns out)"
  shows "\<exists>s. get_series d ''runtime'' = Inr s \<and>
           get_series out ''runtime'' = Inr (fillna (to_numeric parse s) (median (to_numeric parse s)))"
proof -
  define pre where "pre = [when_col ''rating'' [stmt_to_numeric parse ''rating'', stmt_fillna_median ''rating''], when_col ''vote_count'' [stmt_to_numeric parse ''vote_count'', stmt_fillna_zero ''vote_count'']]"
  define post where "post = [when_col ''release_year'' [stmt_to_numeric parse ''release_year'', stmt_astype_Int64 ''release_year''], when_col ''popularity'' [stmt_to_numeric parse ''popularity'', stmt_fillna_zero ''popularity''], stmt_movie_id, when_col ''genres'' [stmt_genres repr]]"
  have run: "run_pure (pre @ when_col ''runtime'' [update_series ''runtime'' (\<lambda>s. Inr (to_numeric parse s)),
        update_series ''runtime'' (\<lambda>s. Inr (fillna s (median s)))] # post) d = Inr out"
    using assms(1) by (simp add: clean_statements_def pre_def post_def stmt_updates)
  have pre: "list_all (preserves ''runtime'') pre"
    by (simp add: pre_def stmt_updates preserves_intros)
  have post: "list_all (preserves ''runtime'') post"
    by (simp add: post_def stmt_updates preserves_intros)
  from focus_two_updates [OF run pre post assms(2)] show ?thesis
    by (auto simp add: astype_Int64_def split: if_splits)
qed

lemma clean_release_year:
  assumes "run_pure (clean_statements parse repr) d = Inr out" and "''release_year'' \<in> set (df_columns out)"
  shows "\<exists>s. get_series d ''release_year'' = Inr s \<and>
           astype_Int64 (to_numeric parse s) = Inr (to_numeric parse s) \<and> get_series out ''release_year'' = Inr (to_numeric parse s)"
proof -
  define pre where "pre = [when_col ''rating'' [stmt_to_numeric parse ''rating'', stmt_fillna_median ''rating''], when_col ''vote_count'' [stmt_to_numeric parse ''vote_count'', stmt_fillna_zero ''vote_count''], when_col ''runtime'' [stmt_to_numeric parse ''runtime'', stmt_fillna_median ''runtime'']]"
  define post where "post = [when_col ''popularity'' [stmt_to_numeric parse ''popularity'', stmt_fillna_zero ''popularity''], stmt_movie_id, when_col ''genres'' [stmt_genres repr]]"
  have run: "run_pure (pre @ when_col ''release_year'' [update_series ''release_year'' (\<lambda>s. Inr (to_numeric parse s)),
        update_series ''release_year'' astype_Int64] # post) d = Inr out"
    using assms(1) by (simp add: clean_statements_def pre_def post_def stmt_updates)
  have pre: "list_all (preserves ''release_year'') pre"
    by (simp add: pre_def stmt_updates preserves_intros)
  have post: "list_all (preserves ''release_year'') post"
    by (simp add: post_def stmt_updates preserves_intros)
  from focus_two_updates [OF run pre post assms(2)] show ?thesis
    by (auto simp add: astype_Int64_def split: if_splits)
qed

lemma clean_popularity:
  assumes "run_pure (clean_statements parse repr) d = Inr out" and "''popularity'' \<in> set (df_columns out)"
  shows "\<exists>s. get_series d ''popularity'' = Inr s \<and>
           get_series out ''popularity'' = Inr (fillna (to_numeric parse s) (Num 0))"
proof -
  define pre where "pre = [when_col ''rating'' [stmt_to_numeric parse ''rating'', stmt_fillna_median ''rating''], when_col ''vote_count'' [stmt_to_numeric parse ''vote_count'', stmt_fillna_zero ''vote_count''], when_col ''runtime'' [stmt_to_numeric parse ''runtime'', stmt_fillna_median ''runtime''], when_col ''release_year'' [stmt_to_numeric parse ''release_year'', stmt_astype_Int64 ''release_year'']]"
  define post where "post = [stmt_movie_id, when_col ''genres'' [stmt_genres repr]]"
  have run: "run_pure (pre @ when_col ''popularity'' [update_series ''popularity'' (\<lambda>s. Inr (to_numeric parse s)),
        update_series ''popularity'' (\<lambda>s. Inr (fillna s (Num 0)))] # post) d = Inr out"
    using assms(1) by (simp add: clean_statements_def pre_def post_def stmt_updates)
  have pre: "list_all (preserves ''popularity'') pre"
    by (simp add: pre_def stmt_updates preserves_intros)
  have post: "list_all (preserves ''popularity'') post"
    by (simp add: post_def stmt_updates preserves_intros)
  from focus_two_updates [OF run pre post assms(2)] show ?thesis
    by (auto simp add: astype_Int64_def split: if_splits)
qed

lemma run_pure_single: "run_pure [stmt] x = Inr y \<longleftrightarrow> stmt x = Inr y"
  by (cases "stmt x") auto

lemma apply_genre_lambda:
  "apply_series genre_lambda (astype_str repr s) =
   Inr (map (\<lambda>c. Str (strip (remove_char (CHR 0x27) (remove_char (CHR '']'') (remove_char (CHR ''['')
          (case c of NA \<Rightarrow> ''nan'' | Num x \<Rightarrow> repr x | Str t \<Rightarrow> t)))))) s)"
  by (induction s) (auto simp add: astype_str_def genre_lambda_def split: cell.splits)

lemma clean_genres:
  assumes "run_pure (clean_statements parse repr) d = Inr out" and "''genres'' \<in> set (df_columns out)"
  shows "\<exists>s. get_series d ''genres'' = Inr s \<and>
           get_series out ''genres'' =
             Inr (map (\<lambda>c. Str (strip (remove_char (CHR 0x27) (remove_char (CHR '']'') (remove_char (CHR ''['')
                    (case c of NA \<Rightarrow> ''nan'' | Num x \<Rightarrow> repr x | Str t \<Rightarrow> t)))))) s)"
proof -
  define pre where "pre = [when_col ''rating'' [stmt_to_numeric parse ''rating'', stmt_fillna_median ''rating''], when_col ''vote_count'' [stmt_to_numeric parse ''vote_count'', stmt_fillna_zero ''vote_count''], when_col ''runtime'' [stmt_to_numeric parse ''runtime'', stmt_fillna_median ''runtime''], when_col ''release_year'' [stmt_to_numeric parse ''release_year'', stmt_astype_Int64 ''release_year''], when_col ''popularity'' [stmt_to_numeric parse ''popularity'', stmt_fillna_zero ''popularity''], stmt_movie_id]"
  define F where "F = (\<lambda>s. apply_series genre_lambda (astype_str repr s))"
  have eq: "when_col ''genres'' [stmt_genres repr] x = Inr y \<longleftrightarrow>
            when_col ''genres'' [update_series ''genres'' F] x = Inr y" for x y
    by (simp add: when_col_def run_pure_single stmt_genres_Inr F_def del: run_pure.simps)
  have split: "clean_statements parse repr = pre @ [when_col ''genres'' [stmt_genres repr]]"
    by (simp add: clean_statements_def pre_def)
  from assms(1) obtain d1 where d1: "run_pure pre d = Inr d1"
      "when_col ''genres'' [stmt_genres repr] d1 = Inr out"
    unfolding split run_pure_append_Inr run_pure_single by blast
  have run: "run_pure (pre @ when_col ''genres'' [update_series ''genres'' F] # []) d = Inr out"
    unfolding run_pure_append_Inr run_pure_single using d1 eq by blast
  have pre: "list_all (preserves ''genres'') pre"
    by (simp add: pre_def stmt_updates preserves_intros)
  from focus_one_update [OF run pre _ assms(2)] show ?thesis
    by (auto simp add: F_def apply_genre_lambda)
qed

section \<open>Imputation\<close>


lemma validate_and_clean_Inr:
  "validate_and_clean parse repr df = Inr out \<longleftrightarrow>
   (\<exists>d. stmt_drop_duplicates df = Inr d \<and> run_pure (clean_statements parse repr) d = Inr out)"
  by (cases "stmt_drop_duplicates df") (auto simp add: validate_and_clean_def)

text \<open>
  Claim C4. Let \<open>d\<close> be the table after de-duplication and \<open>out\<close> the normalised table. For
  \<^verbatim>\<open>rating\<close> and \<^verbatim>\<open>runtime\<close>, when present in \<open>out\<close>, every cell that is missing or does not
  parse holds the median of the parsed values of that column of \<open>d\<close>, and every other cell
  its parsed value. For \<^verbatim>\<open>vote_count\<close> and \<^verbatim>\<open>popularity\<close> such a cell holds zero, so that a
  column with no parsable value at all becomes all zero. For \<^verbatim>\<open>release_year\<close> nothing is
  filled in: a cell that does not parse stays missing.
\<close>

theorem imputation_policy:
  assumes "validate_and_clean parse repr df = Inr out"
  shows "\<exists>d. stmt_drop_duplicates df = Inr d \<and>
    (\<forall>name\<in>{''rating'', ''runtime''}. name \<in> set (df_columns out) \<longrightarrow>
       (\<exists>s. get_series d name = Inr s \<and>
            get_series out name =
              Inr (map (\<lambda>c. if to_numeric_cell parse c = NA then median (to_numeric parse s)
                             else to_numeric_cell parse c) s))) \<and>
    (\<forall>name\<in>{''vote_count'', ''popularity''}. name \<in> set (df_columns out) \<longrightarrow>
       (\<exists>s. get_series d name = Inr s \<and>
            get_series out name =
              Inr (map (\<lambda>c. if to_numeric_cell parse c = NA then Num 0 else to_numeric_cell parse c) s) \<and>
            ((\<forall>c\<in>set s. to_numeric_cell parse c = NA) \<longrightarrow>
               get_series out name = Inr (replicate (length s) (Num 0))))) \<and>
    (''release_year'' \<in> set (df_columns out) \<longrightarrow>
       (\<exists>s. get_series d ''release_year'' = Inr s \<and>
            get_series out ''release_year'' = Inr (map (to_numeric_cell parse) s)))"
proof -
  from assms obtain d where d: "stmt_drop_duplicates df = Inr d"
    and run: "run_pure (clean_statements parse repr) d = Inr out"
    by (auto simp add: validate_and_clean_Inr)
  have all_na: "map (\<lambda>c. if to_numeric_cell parse c = NA then Num 0 else to_numeric_cell parse c) s =
      replicate (length s) (Num 0)" if "\<forall>c\<in>set s. to_numeric_cell parse c = NA" for s
    using that by (induction s) auto
  have med: "\<forall>name\<in>{''rating'', ''runtime''}. name \<in> set (df_columns out) \<longrightarrow>
       (\<exists>s. get_series d name = Inr s \<and>
            get_series out name =
              Inr (map (\<lambda>c. if to_numeric_cell parse c = NA then median (to_numeric parse s)
                             else to_numeric_cell parse c) s))"
    using clean_rating [OF run] clean_runtime [OF run] by (simp add: fillna_to_numeric)
  have zero: "\<forall>name\<in>{''vote_count'', ''popularity''}. name \<in> set (df_columns out) \<longrightarrow>
       (\<exists>s. get_series d name = Inr s \<and>
            get_series out name =
              Inr (map (\<lambda>c. if to_numeric_cell parse c = NA then Num 0 else to_numeric_cell parse c) s) \<and>
            ((\<forall>c\<in>set s. to_numeric_cell parse c = NA) \<longrightarrow>
               get_series out name = Inr (replicate (length s) (Num 0))))"
  proof (intro ballI impI)
    fix name assume n: "name \<in> {''vote_count'', ''popularity''}" and i: "name \<in> set (df_columns out)"
    from n i clean_vote_count [OF run] clean_popularity [OF run] obtain s where
      s: "get_series d name = Inr s" "get_series out name = Inr (fillna (to_numeric parse s) (Num 0))"
      by auto
    show "\<exists>s. get_series d name = Inr s \<and>
            get_series out name =
              Inr (map (\<lambda>c. if to_numeric_cell parse c = NA then Num 0 else to_numeric_cell parse c) s) \<and>
            ((\<forall>c\<in>set s. to_numeric_cell parse c = NA) \<longrightarrow>
               get_series out name = Inr (replicate (length s) (Num 0)))"
      using s all_na [of s] by (intro exI [of _ s]) (simp add: fillna_to_numeric)
  qed
  have year: "''release_year'' \<in> set (df_columns out) \<longrightarrow>
       (\<exists>s. get_series d ''release_year'' = Inr s \<and>
            get_series out ''release_year'' = Inr (map (to_numeric_cell parse) s))"
    using clean_release_year [OF run] by (auto simp add: to_numeric_def)
  from d med zero year show ?thesis by blast
qed



text \<open>Three films are left after de-duplication; one rating and one runtime are missing or do
  not parse, no vote count is known, and one year does not parse.\<close>

theorem imputation_policy_witness:
  "validate_and_clean ex_parse ex_repr ex_movies = Inr ex_movies_clean \<and>
   get_series ex_movies_clean ''rating'' = Inr [Num 7.5, Num 8.25, Num 9] \<and>
   get_series ex_movies_clean ''runtime'' = Inr [Num 120, Num 110, Num 100] \<and>
   get_series ex_movies_clean ''vote_count'' = Inr [Num 0, Num 0, Num 0] \<and>
   get_series ex_movies_clean ''release_year'' = Inr [Num 1999, NA, Num 2001]"
proof -
  have v: "validate_and_clean ex_parse ex_repr ex_movies = Inr ex_movies_clean"
    by code_simp
  have dd: "stmt_drop_duplicates ex_movies = Inr ex_movies_dedup"
    by code_simp
  from imputation_policy [OF v] dd have
    med: "\<forall>name\<in>{''rating'', ''runtime''}. name \<in> set (df_columns ex_movies_clean) \<longrightarrow>
       (\<exists>s. get_series ex_movies_dedup name = Inr s \<and>
            get_series ex_movies_clean name =
              Inr (map (\<lambda>c. if to_numeric_cell ex_parse c = NA then median (to_numeric ex_parse s)
                             else to_numeric_cell ex_parse c) s))" and
    zero: "\<forall>name\<in>{''vote_count'', ''popularity''}. name \<in> set (df_columns ex_movies_clean) \<longrightarrow>
       (\<exists>s. get_series ex_movies_dedup name = Inr s \<and>
            get_series ex_movies_clean name =
              Inr (map (\<lambda>c. if to_numeric_cell ex_parse c = NA then Num 0 else to_numeric_cell ex_parse c) s) \<and>
            ((\<forall>c\<in>set s. to_numeric_cell ex_parse c = NA) \<longrightarrow>
               get_series ex_movies_clean name = Inr (replicate (length s) (Num 0))))" and
    year: "''release_year'' \<in> set (df_columns ex_movies_clean) \<longrightarrow>
       (\<exists>s. get_series ex_movies_dedup ''release_year'' = Inr s \<and>
            get_series ex_movies_clean ''release_year'' = Inr (map (to_numeric_cell ex_parse) s))"
    by auto
  have cols: "df_columns ex_movies_clean =
      [''title'', ''release_year'', ''runtime'', ''rating'', ''vote_count'', ''movie_id'']"
    by code_simp
  have s_rating: "get_series ex_movies_dedup ''rating'' = Inr [Str ''7.5'', NA, Str ''9'']"
    by code_simp
  have s_runtime: "get_series ex_movies_dedup ''runtime'' = Inr [Str ''120'', Str ''long'', Str ''100'']"
    by code_simp
  have s_votes: "get_series ex_movies_dedup ''vote_count'' = Inr [NA, NA, NA]"
    by code_simp
  have s_year: "get_series ex_movies_dedup ''release_year'' = Inr [Str ''1999'', Str ''n/a'', Str ''2001'']"
    by code_simp
  have e_rating: "map (\<lambda>c. if to_numeric_cell ex_parse c = NA
        then median (to_numeric ex_parse [Str ''7.5'', NA, Str ''9''])
        else to_numeric_cell ex_parse c) [Str ''7.5'', NA, Str ''9''] = [Num 7.5, Num 8.25, Num 9]"
    by code_simp
  have e_runtime: "map (\<lambda>c. if to_numeric_cell ex_parse c = NA
        then median (to_numeric ex_parse [Str ''120'', Str ''long'', Str ''100''])
        else to_numeric_cell ex_parse c) [Str ''120'', Str ''long'', Str ''100''] =
      [Num 120, Num 110, Num 100]"
    by code_simp
  have e_year: "map (to_numeric_cell ex_parse) [Str ''1999'', Str ''n/a'', Str ''2001''] =
      [Num 1999, NA, Num 2001]"
    by code_simp
  have na: "\<forall>c\<in>set [NA, NA, NA]. to_numeric_cell ex_parse c = NA"
    by (simp add: to_numeric_cell_def)
  have r1: "get_series ex_movies_clean ''rating'' = Inr [Num 7.5, Num 8.25, Num 9]"
    using med s_rating e_rating cols by auto
  have r2: "get_series ex_movies_clean ''runtime'' = Inr [Num 120, Num 110, Num 100]"
    using med s_runtime e_runtime cols by auto
  have r3: "get_series ex_movies_clean ''vote_count'' = Inr [Num 0, Num 0, Num 0]"
    using zero s_votes na cols by (auto simp add: numeral_3_eq_3)
  have r4: "get_series ex_movies_clean ''release_year'' = Inr [Num 1999, NA, Num 2001]"
    using year s_year e_year cols by auto
  from v r1 r2 r3 r4 show ?thesis by simp
qed

section \<open>Labels of the output\<close>


lemma keeps_shape_update_series: "keeps_shape (update_series n f)"
  unfolding keeps_shape_def
proof (intro allI impI)
  fix df df' assume "update_series n f df = Inr df'"
  from update_series_Inr [OF this] obtain s s' where
    s: "get_series df n = Inr s" "df' = set_series df n s'" by blast
  from s(1) have "n \<in> set (df_columns df)"
    by (auto simp add: get_series_Inr_iff in_columns_iff)
  with s(2) show "df_columns df' = df_columns df \<and> nrows df' = nrows df"
    by (simp add: df_columns_set_series nrows_set_series)
qed

lemma keeps_shape_run:
  assumes "list_all keeps_shape stmts" and "run_pure stmts df = Inr df'"
  shows "df_columns df' = df_columns df \<and> nrows df' = nrows df"
  using assms
proof (induction stmts arbitrary: df)
  case Nil
  then show ?case by simp
next
  case (Cons stmt stmts)
  from Cons.prems(2) obtain d where d: "stmt df = Inr d" "run_pure stmts d = Inr df'"
    by (auto split: sum.splits)
  from Cons.prems(1) d(1) have "df_columns d = df_columns df \<and> nrows d = nrows df"
    by (simp add: keeps_shape_def)
  moreover from Cons.IH [OF _ d(2)] Cons.prems(1)
  have "df_columns df' = df_columns d \<and> nrows df' = nrows d" by simp
  ultimately show ?case by simp
qed

lemma keeps_shape_when_col: "list_all keeps_shape body \<Longrightarrow> keeps_shape (when_col n body)"
  unfolding keeps_shape_def [of "when_col n body"]
  by (auto simp add: when_col_def keeps_shape_run split: if_splits)

lemma keeps_shape_stmt_genres: "keeps_shape (stmt_genres repr)"
  using keeps_shape_update_series [of "''genres''"]
  unfolding keeps_shape_def by (simp add: stmt_genres_Inr)

lemmas keeps_shape_intros =
  keeps_shape_when_col keeps_shape_update_series keeps_shape_stmt_genres

lemma stmt_movie_id_shape:
  assumes "stmt_movie_id df = Inr df'"
  shows "nrows df' = nrows df \<and>
         df_columns df' = (if ''movie_id'' \<in> set (df_columns df) then df_columns df
                           else df_columns df @ [''movie_id''])"
  using assms
  by (auto simp add: stmt_movie_id_def nrows_set_series df_columns_set_series split: if_splits)

lemma clean_statements_shape:
  assumes "run_pure (clean_statements parse repr) d = Inr out"
  shows "nrows out = nrows d \<and>
         df_columns out = (if ''movie_id'' \<in> set (df_columns d) then df_columns d
                           else df_columns d @ [''movie_id''])"
proof -
  define pre where "pre =
    [when_col ''rating'' [stmt_to_numeric parse ''rating'', stmt_fillna_median ''rating''],
     when_col ''vote_count'' [stmt_to_numeric parse ''vote_count'', stmt_fillna_zero ''vote_count''],
     when_col ''runtime'' [stmt_to_numeric parse ''runtime'', stmt_fillna_median ''runtime''],
     when_col ''release_year'' [stmt_to_numeric parse ''release_year'', stmt_astype_Int64 ''release_year''],
     when_col ''popularity'' [stmt_to_numeric parse ''popularity'', stmt_fillna_zero ''popularity'']]"
  define post where "post = [when_col ''genres'' [stmt_genres repr]]"
  have split: "clean_statements parse repr = pre @ stmt_movie_id # post"
    by (simp add: clean_statements_def pre_def post_def)
  from assms obtain d1 d2 where d: "run_pure pre d = Inr d1" "stmt_movie_id d1 = Inr d2"
      "run_pure post d2 = Inr out"
    unfolding split run_pure_append_Inr run_pure_Cons_Inr by blast
  have "list_all keeps_shape pre"
    by (simp add: pre_def stmt_updates keeps_shape_intros)
  from keeps_shape_run [OF this d(1)] have 1: "df_columns d1 = df_columns d" "nrows d1 = nrows d"
    by simp_all
  have "list_all keeps_shape post"
    by (simp add: post_def keeps_shape_intros)
  from keeps_shape_run [OF this d(3)] have 3: "df_columns out = df_columns d2" "nrows out = nrows d2"
    by simp_all
  from stmt_movie_id_shape [OF d(2)] 1 3 show ?thesis by simp
qed

lemma stmt_drop_duplicates_columns:
  assumes "stmt_drop_duplicates df = Inr d"
  shows "df_columns d = df_columns df"
  using assms
  by (auto simp add: stmt_drop_duplicates_def drop_duplicates_def df_columns_def o_def Let_def
      split: if_splits)

lemma validate_and_clean_columns:
  assumes "validate_and_clean parse repr df = Inr out"
  shows "df_columns out = (if ''movie_id'' \<in> set (df_columns df) then df_columns df
                           else df_columns df @ [''movie_id''])"
proof -
  from assms obtain d where d: "stmt_drop_duplicates df = Inr d"
    "run_pure (clean_statements parse repr) d = Inr out"
    by (auto simp add: validate_and_clean_Inr)
  from clean_statements_shape [OF d(2)] stmt_drop_duplicates_columns [OF d(1)]
  show ?thesis by simp
qed

lemma rename_empty: "rename df [] = df"
  by (simp add: rename_def case_prod_unfold)

lemma existing_std_cols_subset:
  "set (existing_std_cols df) \<subseteq> set (df_columns df) \<inter> set (dict_keys STANDARD_SCHEMA)"
  by (auto simp add: existing_std_cols_def)

lemma apply_mapping_eq:
  "apply_mapping df mapping =
   Inr ((rename df mapping)\<lparr>cols := concat (map (columns_named (rename df mapping))
                                              (existing_std_cols (rename df mapping)))\<rparr>)"
proof -
  have "list_all (\<lambda>k. k \<in> set (df_columns (rename df mapping))) (existing_std_cols (rename df mapping))"
    using existing_std_cols_subset [of "rename df mapping"] by (auto simp add: list_all_iff)
  then show ?thesis by (simp add: apply_mapping_def select_columns_def Let_def)
qed

lemma nrows_rename: "nrows (rename df mapping) = nrows df"
  by (simp add: rename_def)

lemma apply_mapping_columns:
  assumes "apply_mapping df mapping = Inr out"
  shows "set (df_columns out) \<subseteq> set (dict_keys STANDARD_SCHEMA)" and "nrows out = nrows df"
proof -
  let ?r = "rename df mapping"
  from assms have out: "out = ?r\<lparr>cols := concat (map (columns_named ?r) (existing_std_cols ?r))\<rparr>"
    by (simp add: apply_mapping_eq)
  show "nrows out = nrows df" by (simp add: out nrows_rename)
  show "set (df_columns out) \<subseteq> set (dict_keys STANDARD_SCHEMA)"
  proof
    fix n assume "n \<in> set (df_columns out)"
    then obtain c k where "k \<in> set (existing_std_cols ?r)" "c \<in> set (columns_named ?r k)" "n = fst c"
      by (auto simp add: out df_columns_def)
    then have "n = k" by (simp add: columns_named_def)
    with \<open>k \<in> set (existing_std_cols ?r)\<close> existing_std_cols_subset [of ?r]
    show "n \<in> set (dict_keys STANDARD_SCHEMA)" by auto
  qed
qed

lemma movie_id_standard: "''movie_id'' \<in> set (dict_keys STANDARD_SCHEMA)"
  by (simp add: dict_keys_def STANDARD_SCHEMA_def)

text \<open>
  Claim C10. \<^verbatim>\<open>_apply_mapping\<close> never fails and keeps only columns whose label is a key of the
  standard schema, whatever the mapping; \<^verbatim>\<open>_validate_and_clean\<close> adds at most the label
  \<^verbatim>\<open>movie_id\<close>; so every label of a table returned by \<^verbatim>\<open>load_and_map\<close> is one of the nine
  canonical names, also under a caller-supplied mapping, whose other destinations are dropped.
\<close>

theorem output_columns_canonical:
  "(\<exists>out. apply_mapping df mapping = Inr out \<and>
          set (df_columns out) \<subseteq> set (dict_keys STANDARD_SCHEMA)) \<and>
   (\<forall>out. validate_and_clean parse repr df = Inr out \<longrightarrow>
          set (df_columns out) \<subseteq> insert ''movie_id'' (set (df_columns df))) \<and>
   (\<forall>out. load_and_map parse repr file source custom_mapping = Inr out \<longrightarrow>
          set (df_columns out) \<subseteq> set (dict_keys STANDARD_SCHEMA))"
proof (intro conjI allI impI)
  show "\<exists>out. apply_mapping df mapping = Inr out \<and>
          set (df_columns out) \<subseteq> set (dict_keys STANDARD_SCHEMA)"
    using apply_mapping_columns(1) [of df mapping] by (simp add: apply_mapping_eq)
next
  fix out assume "validate_and_clean parse repr df = Inr out"
  from validate_and_clean_columns [OF this]
  show "set (df_columns out) \<subseteq> insert ''movie_id'' (set (df_columns df))"
    by (auto split: if_splits)
next
  fix out assume l: "load_and_map parse repr file source custom_mapping = Inr out"
  then obtain raw m mapped where
    "apply_mapping raw m = Inr mapped" and v: "validate_and_clean parse repr mapped = Inr out"
    by (auto simp add: load_and_map_def split: sum.splits)
  from apply_mapping_columns(1) [OF this(1)]
  have "set (df_columns mapped) \<subseteq> set (dict_keys STANDARD_SCHEMA)" .
  with validate_and_clean_columns [OF v] movie_id_standard
  show "set (df_columns out) \<subseteq> set (dict_keys STANDARD_SCHEMA)"
    by (auto split: if_splits)
qed



text \<open>A caller's mapping with the destination \<^verbatim>\<open>studio\<close>: it is taken as it is, and the column
  it names is not in the output.\<close>

theorem output_columns_canonical_witness:
  "resolve_mapping ex_studio None (Some ex_studio_map) = Inr ex_studio_map \<and>
   load_and_map ex_parse ex_repr (Inr ex_studio) None (Some ex_studio_map) =
     Inr \<lparr>nrows = 1, cols = [(''title'', [Str ''Heat'']), (''movie_id'', [Str ''MOV00001''])]\<rparr> \<and>
   ''studio'' \<notin> set (df_columns
      \<lparr>nrows = 1, cols = [(''title'', [Str ''Heat'']), (''movie_id'', [Str ''MOV00001''])]\<rparr>)"
proof -
  let ?out = "\<lparr>nrows = 1, cols = [(''title'', [Str ''Heat'']), (''movie_id'', [Str ''MOV00001''])]\<rparr>"
  have r: "resolve_mapping ex_studio None (Some ex_studio_map) = Inr ex_studio_map"
    by code_simp
  have l: "load_and_map ex_parse ex_repr (Inr ex_studio) None (Some ex_studio_map) = Inr ?out"
    by code_simp
  from output_columns_canonical [of ex_studio ex_studio_map ex_parse ex_repr "Inr ex_studio" None
      "Some ex_studio_map"] l
  have "set (df_columns ?out) \<subseteq> set (dict_keys STANDARD_SCHEMA)" by blast
  moreover have "''studio'' \<notin> set (dict_keys STANDARD_SCHEMA)"
    by (simp add: dict_keys_def STANDARD_SCHEMA_def)
  ultimately have "''studio'' \<notin> set (df_columns ?out)" by blast
  with r l show ?thesis by simp
qed


section \<open>A table in which nothing resolves\<close>

lemma dict_set_nonempty: "dict_set d k v \<noteq> []"
  by (simp add: dict_set_def)

lemma fuzzy_field_nonempty: "m \<noteq> [] \<Longrightarrow> fuzzy_field dcl std_col patterns m \<noteq> []"
  by (induction patterns) (auto simp add: dict_set_nonempty split: option.splits)

lemma fuzzy_field_empty:
  "fuzzy_field dcl std_col patterns [] = [] \<Longrightarrow> \<forall>p\<in>set patterns. map_of dcl (lower p) = None"
  by (induction patterns) (auto simp add: dict_set_nonempty dict_keys_def split: option.splits)

lemma fold_fuzzy_field_empty:
  assumes "fold (\<lambda>(std_col, patterns) m. fuzzy_field dcl std_col patterns m) table m = []"
  shows "m = [] \<and> (\<forall>e\<in>set table. \<forall>p\<in>set (snd e). map_of dcl (lower p) = None)"
  using assms
proof (induction table arbitrary: m)
  case Nil
  then show ?case by simp
next
  case (Cons e table)
  obtain std_col patterns where e: "e = (std_col, patterns)" by (cases e)
  from Cons.prems have "fold (\<lambda>(std_col, patterns) m. fuzzy_field dcl std_col patterns m) table
      (fuzzy_field dcl std_col patterns m) = []"
    by (simp add: e)
  from Cons.IH [OF this] have 1: "fuzzy_field dcl std_col patterns m = []"
    and 2: "\<forall>e\<in>set table. \<forall>p\<in>set (snd e). map_of dcl (lower p) = None"
    by simp_all
  from 1 have m: "m = []" using fuzzy_field_nonempty by blast
  with 1 have "\<forall>p\<in>set patterns. map_of dcl (lower p) = None"
    using fuzzy_field_empty by blast
  with m 2 show ?case by (simp add: e)
qed

lemma df_cols_lower_keys: "fst ` set (df_cols_lower df) = lower ` set (df_columns df)"
proof -
  have "fst ` set (fold (\<lambda>col d. dict_set d (lower col) col) xs d) = fst ` set d \<union> lower ` set xs"
    for xs :: "string list" and d :: "(string, string) dict"
    by (induction xs arbitrary: d) (auto simp add: dict_set_def dom_update)
  then show ?thesis by (simp add: df_cols_lower_def)
qed

lemma fuzzy_match_all_empty:
  assumes "fuzzy_match_all df = []"
  shows "\<forall>e\<in>set FUZZY_PATTERNS. \<forall>p\<in>set (snd e). lower p \<notin> lower ` set (df_columns df)"
proof -
  from assms fold_fuzzy_field_empty [of "df_cols_lower df" FUZZY_PATTERNS "[]"]
  have "\<forall>e\<in>set FUZZY_PATTERNS. \<forall>p\<in>set (snd e). map_of (df_cols_lower df) (lower p) = None"
    by (simp add: fuzzy_match_all_def)
  then show ?thesis
    by (simp add: map_of_eq_None_iff df_cols_lower_keys)
qed

lemma standard_names_are_patterns:
  "\<forall>k\<in>set (dict_keys STANDARD_SCHEMA). lower k = k \<and> (\<exists>e\<in>set FUZZY_PATTERNS. k \<in> set (snd e))"
  by code_simp

lemma get_column_mapping_empty:
  assumes "get_column_mapping df source = []"
  shows "fuzzy_match_all df = []"
  using assms by (auto simp add: get_column_mapping_def Let_def split: if_splits)

lemma no_standard_column:
  assumes "get_column_mapping df source = []"
  shows "existing_std_cols df = []"
proof -
  have "k \<notin> set (df_columns df)" if k: "k \<in> set (dict_keys STANDARD_SCHEMA)" for k
  proof
    assume c: "k \<in> set (df_columns df)"
    from k standard_names_are_patterns obtain e where
      e: "lower k = k" "e \<in> set FUZZY_PATTERNS" "k \<in> set (snd e)" by blast
    from fuzzy_match_all_empty [OF get_column_mapping_empty [OF assms]] e(2,3)
    have "lower k \<notin> lower ` set (df_columns df)" by blast
    with c show False by blast
  qed
  then show ?thesis by (auto simp add: existing_std_cols_def filter_empty_conv)
qed

text \<open>
  Claim C8 as stated fails on a table whose only column is \<^verbatim>\<open>foo\<close>: nothing resolves, the
  projection has no column, and the cleaned table has one row and the column \<^verbatim>\<open>movie_id\<close>.
\<close>

theorem empty_mapping_counterexample:
  "get_column_mapping ex_none ''imdb'' = [] \<and>
   apply_mapping ex_none [] = Inr \<lparr>nrows = 1, cols = []\<rparr> \<and>
   validate_and_clean ex_parse ex_repr \<lparr>nrows = 1, cols = []\<rparr> =
     Inr \<lparr>nrows = 1, cols = [(''movie_id'', [Str ''MOV00001''])]\<rparr> \<and>
   load_and_map ex_parse ex_repr (Inr ex_none) (Some ''imdb'') None =
     Inr \<lparr>nrows = 1, cols = [(''movie_id'', [Str ''MOV00001''])]\<rparr> \<and>
   load_and_map ex_parse ex_repr (Inr ex_none) (Some ''imdb'') None \<noteq> Inr \<lparr>nrows = 1, cols = []\<rparr>"
  by code_simp

text \<open>
  Claim C8, amended: when no field resolves, nothing is raised; the projection under the
  empty mapping has no column and all the rows, and the normalised table consists of the
  synthesised \<^verbatim>\<open>movie_id\<close> column alone, one identifier for each row of the raw table.
\<close>

theorem empty_mapping_normalises:
  assumes "get_column_mapping df source = []"
  shows "apply_mapping df [] = Inr \<lparr>nrows = nrows df, cols = []\<rparr> \<and>
         validate_and_clean parse repr \<lparr>nrows = nrows df, cols = []\<rparr> =
           Inr \<lparr>nrows = nrows df, cols = [(''movie_id'', map movie_id_of [0..<nrows df])]\<rparr> \<and>
         load_and_map parse repr (Inr df) (Some source) None =
           Inr \<lparr>nrows = nrows df, cols = [(''movie_id'', map movie_id_of [0..<nrows df])]\<rparr>"
proof -
  have a: "apply_mapping df [] = Inr \<lparr>nrows = nrows df, cols = []\<rparr>"
    using no_standard_column [OF assms] by (simp add: apply_mapping_eq rename_empty)
  have v: "validate_and_clean parse repr \<lparr>nrows = nrows df, cols = []\<rparr> =
           Inr \<lparr>nrows = nrows df, cols = [(''movie_id'', map movie_id_of [0..<nrows df])]\<rparr>"
    by (simp add: validate_and_clean_def stmt_drop_duplicates_def clean_statements_def when_col_def
        stmt_movie_id_def df_columns_def set_series_def)
  have l: "load_and_map parse repr (Inr df) (Some source) None =
           Inr \<lparr>nrows = nrows df, cols = [(''movie_id'', map movie_id_of [0..<nrows df])]\<rparr>"
    using a v assms by (simp add: load_and_map_def resolve_mapping_def)
  from a v l show ?thesis by simp
qed

text \<open>The table with the single column \<^verbatim>\<open>foo\<close>.\<close>

theorem empty_mapping_normalises_witness:
  "get_column_mapping ex_none ''imdb'' = [] \<and>
   load_and_map ex_parse ex_repr (Inr ex_none) (Some ''imdb'') None =
     Inr \<lparr>nrows = nrows ex_none, cols = [(''movie_id'', map movie_id_of [0..<nrows ex_none])]\<rparr>"
proof -
  have e: "get_column_mapping ex_none ''imdb'' = []" by code_simp
  from empty_mapping_normalises [OF e, of ex_parse ex_repr] e show ?thesis by simp
qed


section \<open>De-duplication\<close>


lemma length_first_mask: "length (first_mask seen ks) = length ks"
  by (induction ks arbitrary: seen) auto

lemma first_mask_nth:
  "i < length ks \<Longrightarrow> first_mask seen ks ! i \<longleftrightarrow> ks ! i \<notin> set seen \<union> set (take i ks)"
proof (induction ks arbitrary: seen i)
  case Nil
  then show ?case by simp
next
  case (Cons k ks)
  show ?case
  proof (cases i)
    case 0
    then show ?thesis by simp
  next
    case (Suc n)
    with Cons.prems have "n < length ks" by simp
    from Cons.IH [OF this, of "k # seen"] Suc show ?thesis by auto
  qed
qed

lemma filter_rows_nths: "filter_rows keep xs = nths xs {i. i < length keep \<and> keep ! i}"
proof (induction keep arbitrary: xs)
  case Nil
  then show ?case by (simp add: filter_rows_def)
next
  case (Cons b keep)
  show ?case
  proof (cases xs)
    case Nil
    then show ?thesis by (simp add: filter_rows_def)
  next
    case (Cons x xs')
    have "{j. Suc j \<in> {i. i < length (b # keep) \<and> (b # keep) ! i}} = {i. i < length keep \<and> keep ! i}"
      by auto
    with Cons.IH [of xs'] Cons show ?thesis
      by (simp add: filter_rows_def nths_Cons)
  qed
qed

lemma length_row_keys: "length (row_keys df names) = nrows df"
  by (simp add: row_keys_def)

lemma first_mask_row_keys:
  "{i. i < length (first_mask [] (row_keys df names)) \<and> first_mask [] (row_keys df names) ! i} =
   first_occurrences df names"
proof -
  let ?ks = "row_keys df names"
  have "(?ks ! i \<notin> set (take i ?ks)) = (\<forall>j<i. ?ks ! j \<noteq> ?ks ! i)" if "i < length ?ks" for i
  proof -
    have s: "set (take i ?ks) = (!) ?ks ` {0..<i}"
      using that nth_image [of i ?ks] by simp
    show ?thesis
    proof
      assume a: "?ks ! i \<notin> set (take i ?ks)"
      show "\<forall>j<i. ?ks ! j \<noteq> ?ks ! i"
      proof (intro allI impI notI)
        fix j assume j: "j < i" and e: "?ks ! j = ?ks ! i"
        from j have "?ks ! j \<in> (!) ?ks ` {0..<i}" by simp
        then have "?ks ! i \<in> set (take i ?ks)" unfolding s e .
        with a show False by simp
      qed
    next
      assume a: "\<forall>j<i. ?ks ! j \<noteq> ?ks ! i"
      show "?ks ! i \<notin> set (take i ?ks)"
      proof
        assume "?ks ! i \<in> set (take i ?ks)"
        with s obtain j where "j < i" "?ks ! j = ?ks ! i" by auto
        with a show False by blast
      qed
    qed
  qed
  then show ?thesis
    by (auto simp add: first_occurrences_def length_first_mask first_mask_nth length_row_keys)
qed

lemma count_first_mask:
  "length (filter id (first_mask [] (row_keys df names))) = card (first_occurrences df names)"
  using length_filter_conv_card [of id "first_mask [] (row_keys df names)"]
  by (simp add: first_mask_row_keys)

lemma drop_duplicates_eq:
  assumes "list_all (\<lambda>k. k \<in> set (df_columns df)) names"
  shows "drop_duplicates df names =
     Inr \<lparr>nrows = card (first_occurrences df names),
          cols = map (\<lambda>c. (fst c, nths (snd c) (first_occurrences df names))) (cols df)\<rparr>"
  using assms
  by (simp add: drop_duplicates_def Let_def count_first_mask filter_rows_nths first_mask_row_keys)

lemma row_keys_pair:
  assumes t: "get_series df ''title'' = Inr t" and y: "get_series df ''release_year'' = Inr y"
    and i: "i < nrows df" and j: "j < nrows df"
  shows "(row_keys df [''title'', ''release_year''] ! i = row_keys df [''title'', ''release_year''] ! j) =
         (t ! i = t ! j \<and> y ! i = y ! j)"
proof -
  from t obtain ct where ct: "columns_named df ''title'' = [ct]" "snd ct = t"
    by (auto simp add: get_series_Inr_iff)
  from y obtain cy where cy: "columns_named df ''release_year'' = [cy]" "snd cy = y"
    by (auto simp add: get_series_Inr_iff)
  let ?sel = "filter (\<lambda>c. fst c \<in> set [''title'', ''release_year'']) (cols df)"
  have sel: "set ?sel = set (columns_named df ''title'') \<union> set (columns_named df ''release_year'')"
    by (auto simp add: columns_named_def)
  have "(row_keys df [''title'', ''release_year''] ! i = row_keys df [''title'', ''release_year''] ! j) =
        (\<forall>c\<in>set ?sel. snd c ! i = snd c ! j)"
    using i j by (simp add: row_keys_def map_eq_conv)
  also have "\<dots> = (t ! i = t ! j \<and> y ! i = y ! j)"
    unfolding sel using ct cy by auto
  finally show ?thesis .
qed

text \<open>
  Claim C6. When the table has both a \<^verbatim>\<open>title\<close> and a \<^verbatim>\<open>release_year\<close> column, the
  de-duplication keeps exactly the rows that are first occurrences of their key, in their
  original order, in every column; where each of the two labels names one column, two rows
  have the same key exactly when they agree in title and in year. When one of the two labels
  is absent the table is left as it is. The later statements of the normaliser keep the
  rows, so the output has the rows that the de-duplication kept.
\<close>

theorem drop_duplicates_keeps_first:
  "(''title'' \<in> set (df_columns df) \<and> ''release_year'' \<in> set (df_columns df) \<longrightarrow>
      stmt_drop_duplicates df =
        Inr \<lparr>nrows = card (first_occurrences df [''title'', ''release_year'']),
             cols = map (\<lambda>c. (fst c, nths (snd c) (first_occurrences df [''title'', ''release_year''])))
                        (cols df)\<rparr>) \<and>
   (\<forall>t y. get_series df ''title'' = Inr t \<and> get_series df ''release_year'' = Inr y \<longrightarrow>
      (\<forall>i<nrows df. \<forall>j<nrows df.
         (row_keys df [''title'', ''release_year''] ! i = row_keys df [''title'', ''release_year''] ! j) =
         (t ! i = t ! j \<and> y ! i = y ! j))) \<and>
   (\<not> (''title'' \<in> set (df_columns df) \<and> ''release_year'' \<in> set (df_columns df)) \<longrightarrow>
      stmt_drop_duplicates df = Inr df) \<and>
   (\<forall>out. validate_and_clean parse repr df = Inr out \<longrightarrow>
      (\<exists>d. stmt_drop_duplicates df = Inr d \<and> nrows out = nrows d \<and>
           columns_named out ''title'' = columns_named d ''title''))"
proof (intro conjI allI impI)
  assume "''title'' \<in> set (df_columns df) \<and> ''release_year'' \<in> set (df_columns df)"
  then show "stmt_drop_duplicates df =
        Inr \<lparr>nrows = card (first_occurrences df [''title'', ''release_year'']),
             cols = map (\<lambda>c. (fst c, nths (snd c) (first_occurrences df [''title'', ''release_year''])))
                        (cols df)\<rparr>"
    by (simp add: stmt_drop_duplicates_def drop_duplicates_eq)
next
  fix t y i j
  assume "get_series df ''title'' = Inr t \<and> get_series df ''release_year'' = Inr y"
    and "i < nrows df" and "j < nrows df"
  then show "(row_keys df [''title'', ''release_year''] ! i = row_keys df [''title'', ''release_year''] ! j) =
         (t ! i = t ! j \<and> y ! i = y ! j)"
    using row_keys_pair by blast
next
  assume "\<not> (''title'' \<in> set (df_columns df) \<and> ''release_year'' \<in> set (df_columns df))"
  then show "stmt_drop_duplicates df = Inr df"
    by (auto simp add: stmt_drop_duplicates_def)
next
  fix out assume "validate_and_clean parse repr df = Inr out"
  then obtain d where d: "stmt_drop_duplicates df = Inr d"
    "run_pure (clean_statements parse repr) d = Inr out"
    by (auto simp add: validate_and_clean_Inr)
  have "list_all (preserves ''title'') (clean_statements parse repr)"
    by (simp add: clean_statements_def stmt_updates preserves_intros)
  from preserves_run [OF this d(2)] clean_statements_shape [OF d(2)] d(1)
  show "\<exists>d. stmt_drop_duplicates df = Inr d \<and> nrows out = nrows d \<and>
           columns_named out ''title'' = columns_named d ''title''"
    by simp
qed



text \<open>The second film repeats title and year of the first and differs in its rating: the
  first row stays, and the rows stay through the rest of the normaliser. A table without a
  year column is not de-duplicated.\<close>

theorem drop_duplicates_keeps_first_witness:
  "stmt_drop_duplicates ex_movies = Inr ex_movies_dedup \<and>
   get_series ex_movies ''rating'' = Inr [Str ''7.5'', Str ''8'', NA, Str ''9''] \<and>
   get_series ex_movies_dedup ''rating'' = Inr [Str ''7.5'', NA, Str ''9''] \<and>
   validate_and_clean ex_parse ex_repr ex_movies = Inr ex_movies_clean \<and>
   nrows ex_movies_clean = nrows ex_movies_dedup \<and>
   stmt_drop_duplicates ex_title = Inr ex_title"
proof -
  have both: "''title'' \<in> set (df_columns ex_movies) \<and> ''release_year'' \<in> set (df_columns ex_movies)"
    by code_simp
  have dd: "stmt_drop_duplicates ex_movies = Inr ex_movies_dedup"
    by code_simp
  have v: "validate_and_clean ex_parse ex_repr ex_movies = Inr ex_movies_clean"
    by code_simp
  have r1: "get_series ex_movies ''rating'' = Inr [Str ''7.5'', Str ''8'', NA, Str ''9'']"
    by code_simp
  have r2: "get_series ex_movies_dedup ''rating'' = Inr [Str ''7.5'', NA, Str ''9'']"
    by code_simp
  from drop_duplicates_keeps_first [of ex_movies ex_parse ex_repr] v dd
  have n: "nrows ex_movies_clean = nrows ex_movies_dedup" by auto
  have no_year: "\<not> (''title'' \<in> set (df_columns ex_title) \<and> ''release_year'' \<in> set (df_columns ex_title))"
    by code_simp
  from drop_duplicates_keeps_first [of ex_title ex_parse ex_repr] no_year
  have t: "stmt_drop_duplicates ex_title = Inr ex_title" by blast
  from dd r1 r2 v n t show ?thesis by simp
qed


section \<open>Genres\<close>


text \<open>
  Claim C7, evaluated on a table whose \<^verbatim>\<open>genres\<close> column holds the text of a Python list, a
  padded plain text and a missing value: brackets, single quotes and outer blanks go, and
  the missing value comes out as the text \<^verbatim>\<open>nan\<close>, not as \<^verbatim>\<open>Unknown\<close>. \<^verbatim>\<open>astype(str)\<close> has
  made it a text before the lambda tests \<^verbatim>\<open>pd.notna\<close>, so the \<^verbatim>\<open>Unknown\<close> branch is never
  taken.
\<close>

theorem genres_missing_becomes_nan:
  "validate_and_clean ex_parse ex_repr ex_genres = Inr ex_genres_clean \<and>
   get_series ex_genres ''genres'' =
     Inr [Str (CHR ''['' # CHR 0x27 # ''Action'' @ CHR 0x27 # '', '' @ CHR 0x27 # ''Drama'' @
               [CHR 0x27, CHR '']'']), Str '' Comedy '', NA] \<and>
   get_series ex_genres_clean ''genres'' = Inr [Str ''Action, Drama'', Str ''Comedy'', Str ''nan'']"
  by code_simp


section \<open>Types of the output\<close>

text \<open>
  Claim C5 as stated fails on a raw table with numeric titles and a duration of 90.5
  minutes: the output holds numbers under \<^verbatim>\<open>title\<close>, declared text, and 90.5 under
  \<^verbatim>\<open>runtime\<close>, declared integer.
\<close>

theorem uncoerced_fields_counterexample:
  "load_and_map ex_parse ex_repr (Inr ex_raw_types) None None =
     Inr \<lparr>nrows = 2,
          cols = [(''title'', [Num 300, Num 1917]),
                  (''runtime'', [Num 90.5, Num 120]),
                  (''movie_id'', [Str ''MOV00001'', Str ''MOV00002''])]\<rparr>"
  by code_simp

lemma to_numeric_cell_cases: "to_numeric_cell parse c = NA \<or> (\<exists>x. to_numeric_cell parse c = Num x)"
  by (auto simp add: to_numeric_cell_def split: cell.splits option.splits)

lemma median_cases: "median s = NA \<or> (\<exists>x. median s = Num x)"
  by (cases "median s") (auto simp add: median_def Let_def split: if_splits)

lemma fillna_cells:
  assumes "c \<in> set (fillna (to_numeric parse s) v)"
  shows "c = v \<or> (\<exists>x. c = Num x)"
  using assms to_numeric_cell_cases [of parse]
  by (auto simp add: fillna_to_numeric)

lemma whole_cells:
  assumes "astype_Int64 (to_numeric parse s) = Inr s'" and "c \<in> set s'"
  shows "c = NA \<or> (\<exists>k::int. c = Num (of_int k))"
proof -
  from assms(1) have s': "s' = to_numeric parse s" and all: "list_all is_whole (to_numeric parse s)"
    by (auto simp add: astype_Int64_def split: if_splits)
  from all assms(2) s' have w: "is_whole c" by (simp add: list_all_iff)
  show ?thesis
  proof (cases c)
    case NA
    then show ?thesis by simp
  next
    case (Num x)
    with w have "\<exists>k::int. x = of_int k" by (simp add: is_whole_def)
    then show ?thesis using Num by auto
  next
    case (Str t)
    with w show ?thesis by (simp add: is_whole_def)
  qed
qed

lemma clean_release_year_whole:
  assumes "run_pure (clean_statements parse repr) d = Inr out" and "''release_year'' \<in> set (df_columns out)"
  shows "\<exists>s. get_series out ''release_year'' = Inr s \<and>
           (\<forall>c\<in>set s. c = NA \<or> (\<exists>k::int. c = Num (of_int k)))"
proof -
  from clean_release_year [OF assms] obtain s where
    s: "astype_Int64 (to_numeric parse s) = Inr (to_numeric parse s)"
       "get_series out ''release_year'' = Inr (to_numeric parse s)"
    by blast
  from whole_cells [OF s(1)] s(2) show ?thesis by blast
qed

lemma clean_movie_id:
  assumes run: "run_pure (clean_statements parse repr) d = Inr out"
  shows "columns_named out ''movie_id'' =
     (if ''movie_id'' \<in> set (df_columns d) then columns_named d ''movie_id''
      else [(''movie_id'', map movie_id_of [0..<nrows out])])"
proof -
  define pre where "pre =
    [when_col ''rating'' [stmt_to_numeric parse ''rating'', stmt_fillna_median ''rating''],
     when_col ''vote_count'' [stmt_to_numeric parse ''vote_count'', stmt_fillna_zero ''vote_count''],
     when_col ''runtime'' [stmt_to_numeric parse ''runtime'', stmt_fillna_median ''runtime''],
     when_col ''release_year'' [stmt_to_numeric parse ''release_year'', stmt_astype_Int64 ''release_year''],
     when_col ''popularity'' [stmt_to_numeric parse ''popularity'', stmt_fillna_zero ''popularity'']]"
  define post where "post = [when_col ''genres'' [stmt_genres repr]]"
  have split: "clean_statements parse repr = pre @ stmt_movie_id # post"
    by (simp add: clean_statements_def pre_def post_def)
  from run obtain d1 d2 where d: "run_pure pre d = Inr d1" "stmt_movie_id d1 = Inr d2"
      "run_pure post d2 = Inr out"
    unfolding split run_pure_append_Inr run_pure_Cons_Inr by blast
  have p1: "list_all (preserves ''movie_id'') pre"
    by (simp add: pre_def stmt_updates preserves_intros)
  have p2: "list_all (preserves ''movie_id'') post"
    by (simp add: post_def preserves_intros)
  have k1: "list_all keeps_shape pre"
    by (simp add: pre_def stmt_updates keeps_shape_intros)
  have k2: "list_all keeps_shape post"
    by (simp add: post_def keeps_shape_intros)
  have c1: "columns_named d1 ''movie_id'' = columns_named d ''movie_id''"
    using preserves_run [OF p1 d(1)] .
  have c2: "columns_named out ''movie_id'' = columns_named d2 ''movie_id''"
    using preserves_run [OF p2 d(3)] .
  have n: "nrows out = nrows d1"
    using keeps_shape_run [OF k2 d(3)] stmt_movie_id_shape [OF d(2)] by simp
  have m: "''movie_id'' \<in> set (df_columns d1) \<longleftrightarrow> ''movie_id'' \<in> set (df_columns d)"
    using c1 by (simp add: in_columns_iff)
  show ?thesis
  proof (cases "''movie_id'' \<in> set (df_columns d)")
    case True
    with m d(2) have "d2 = d1" by (simp add: stmt_movie_id_def)
    with True c1 c2 show ?thesis by simp
  next
    case False
    with m d(2) have "d2 = set_series d1 ''movie_id'' (map movie_id_of [0..<nrows d1])"
      and "''movie_id'' \<notin> set (df_columns d1)"
      by (simp_all add: stmt_movie_id_def)
    then have "columns_named d2 ''movie_id'' = [(''movie_id'', map movie_id_of [0..<nrows d1])]"
      by (simp add: columns_named_set_series_new)
    with False c2 n show ?thesis by simp
  qed
qed



text \<open>
  Claim C5, amended. In a table returned by \<^verbatim>\<open>_validate_and_clean\<close>: \<^verbatim>\<open>rating\<close> and
  \<^verbatim>\<open>runtime\<close>, when present, hold numbers or missing values only; \<^verbatim>\<open>vote_count\<close> and
  \<^verbatim>\<open>popularity\<close> hold numbers only; \<^verbatim>\<open>release_year\<close> holds whole numbers or missing values
  only; \<^verbatim>\<open>genres\<close> holds texts only; a synthesised \<^verbatim>\<open>movie_id\<close> holds the generated texts.
  \<^verbatim>\<open>title\<close>, \<^verbatim>\<open>overview\<close> and a \<^verbatim>\<open>movie_id\<close> that the input had are the columns of the
  de-duplicated input, with whatever cells they hold.
\<close>

theorem coerced_fields:
  assumes "validate_and_clean parse repr df = Inr out"
  shows
   "(\<forall>name\<in>{''rating'', ''runtime''}. name \<in> set (df_columns out) \<longrightarrow>
       (\<exists>s. get_series out name = Inr s \<and> (\<forall>c\<in>set s. c = NA \<or> (\<exists>x. c = Num x)))) \<and>
    (\<forall>name\<in>{''vote_count'', ''popularity''}. name \<in> set (df_columns out) \<longrightarrow>
       (\<exists>s. get_series out name = Inr s \<and> (\<forall>c\<in>set s. \<exists>x. c = Num x))) \<and>
    (''release_year'' \<in> set (df_columns out) \<longrightarrow>
       (\<exists>s. get_series out ''release_year'' = Inr s \<and>
            (\<forall>c\<in>set s. c = NA \<or> (\<exists>k::int. c = Num (of_int k))))) \<and>
    (''genres'' \<in> set (df_columns out) \<longrightarrow>
       (\<exists>s. get_series out ''genres'' = Inr s \<and> (\<forall>c\<in>set s. \<exists>t. c = Str t))) \<and>
    (''movie_id'' \<notin> set (df_columns df) \<longrightarrow>
       get_series out ''movie_id'' = Inr (map movie_id_of [0..<nrows out])) \<and>
    (\<forall>name\<in>{''title'', ''overview'', ''movie_id''}. name \<in> set (df_columns df) \<longrightarrow>
       (\<exists>d. stmt_drop_duplicates df = Inr d \<and> columns_named out name = columns_named d name))"
proof -
  from assms obtain d where d: "stmt_drop_duplicates df = Inr d"
    and run: "run_pure (clean_statements parse repr) d = Inr out"
    by (auto simp add: validate_and_clean_Inr)
  have cd: "df_columns d = df_columns df" using stmt_drop_duplicates_columns [OF d] .
  have med: "\<forall>name\<in>{''rating'', ''runtime''}. name \<in> set (df_columns out) \<longrightarrow>
       (\<exists>s. get_series out name = Inr s \<and> (\<forall>c\<in>set s. c = NA \<or> (\<exists>x. c = Num x)))"
  proof (intro ballI impI)
    fix name assume n: "name \<in> {''rating'', ''runtime''}" and i: "name \<in> set (df_columns out)"
    from n i clean_rating [OF run] clean_runtime [OF run] obtain s where
      s: "get_series out name = Inr (fillna (to_numeric parse s) (median (to_numeric parse s)))"
      by auto
    have "c = NA \<or> (\<exists>x. c = Num x)"
      if "c \<in> set (fillna (to_numeric parse s) (median (to_numeric parse s)))" for c
      using fillna_cells [OF that] median_cases [of "to_numeric parse s"] by auto
    with s show "\<exists>s. get_series out name = Inr s \<and> (\<forall>c\<in>set s. c = NA \<or> (\<exists>x. c = Num x))"
      by blast
  qed
  have zero: "\<forall>name\<in>{''vote_count'', ''popularity''}. name \<in> set (df_columns out) \<longrightarrow>
       (\<exists>s. get_series out name = Inr s \<and> (\<forall>c\<in>set s. \<exists>x. c = Num x))"
  proof (intro ballI impI)
    fix name assume n: "name \<in> {''vote_count'', ''popularity''}" and i: "name \<in> set (df_columns out)"
    from n i clean_vote_count [OF run] clean_popularity [OF run] obtain s where
      s: "get_series out name = Inr (fillna (to_numeric parse s) (Num 0))"
      by auto
    have "\<exists>x. c = Num x" if "c \<in> set (fillna (to_numeric parse s) (Num 0))" for c
      using fillna_cells [OF that] by auto
    with s show "\<exists>s. get_series out name = Inr s \<and> (\<forall>c\<in>set s. \<exists>x. c = Num x)"
      by blast
  qed
  have year: "''release_year'' \<in> set (df_columns out) \<longrightarrow>
       (\<exists>s. get_series out ''release_year'' = Inr s \<and>
            (\<forall>c\<in>set s. c = NA \<or> (\<exists>k::int. c = Num (of_int k))))"
    using clean_release_year_whole [OF run] by blast
  have genres: "''genres'' \<in> set (df_columns out) \<longrightarrow>
       (\<exists>s. get_series out ''genres'' = Inr s \<and> (\<forall>c\<in>set s. \<exists>t. c = Str t))"
  proof
    assume "''genres'' \<in> set (df_columns out)"
    from clean_genres [OF run this] obtain s where
      "get_series out ''genres'' =
         Inr (map (\<lambda>c. Str (strip (remove_char (CHR 0x27) (remove_char (CHR '']'') (remove_char (CHR ''['')
                    (case c of NA \<Rightarrow> ''nan'' | Num x \<Rightarrow> repr x | Str t \<Rightarrow> t)))))) s)"
      by blast
    then show "\<exists>s. get_series out ''genres'' = Inr s \<and> (\<forall>c\<in>set s. \<exists>t. c = Str t)"
      by auto
  qed
  have new_id: "''movie_id'' \<notin> set (df_columns df) \<longrightarrow>
       get_series out ''movie_id'' = Inr (map movie_id_of [0..<nrows out])"
    using clean_movie_id [OF run] cd by (simp add: get_series_Inr_iff)
  have pass: "\<forall>name\<in>{''title'', ''overview'', ''movie_id''}. name \<in> set (df_columns df) \<longrightarrow>
       (\<exists>d. stmt_drop_duplicates df = Inr d \<and> columns_named out name = columns_named d name)"
  proof (intro ballI impI)
    fix name assume n: "name \<in> {''title'', ''overview'', ''movie_id''}" and i: "name \<in> set (df_columns df)"
    have "columns_named out name = columns_named d name"
    proof (cases "name = ''movie_id''")
      case True
      with i cd clean_movie_id [OF run] show ?thesis by simp
    next
      case False
      with n have "list_all (preserves name) (clean_statements parse repr)"
        by (auto simp add: clean_statements_def stmt_updates preserves_intros)
      from preserves_run [OF this run] show ?thesis .
    qed
    with d show "\<exists>d. stmt_drop_duplicates df = Inr d \<and> columns_named out name = columns_named d name"
      by blast
  qed
  from med zero year genres new_id pass show ?thesis by (intro conjI)
qed

text \<open>A table without identifiers, which are then generated, and one with identifiers, which
  stay.\<close>

theorem coerced_fields_witness:
  "validate_and_clean ex_parse ex_repr ex_movies = Inr ex_movies_clean \<and>
   get_series ex_movies_clean ''movie_id'' = Inr [Str ''MOV00001'', Str ''MOV00002'', Str ''MOV00003''] \<and>
   validate_and_clean ex_parse ex_repr ex_genres = Inr ex_genres_clean \<and>
   columns_named ex_genres_clean ''movie_id'' = [(''movie_id'', [Str ''m1'', Str ''m2'', Str ''m3''])]"
proof -
  have v: "validate_and_clean ex_parse ex_repr ex_movies = Inr ex_movies_clean"
    by code_simp
  have no_id: "''movie_id'' \<notin> set (df_columns ex_movies)"
    by code_simp
  have ids: "map movie_id_of [0..<nrows ex_movies_clean] =
      [Str ''MOV00001'', Str ''MOV00002'', Str ''MOV00003'']"
    by code_simp
  from coerced_fields [OF v] no_id ids
  have a: "get_series ex_movies_clean ''movie_id'' =
      Inr [Str ''MOV00001'', Str ''MOV00002'', Str ''MOV00003'']"
    by simp
  have g: "validate_and_clean ex_parse ex_repr ex_genres = Inr ex_genres_clean"
    by code_simp
  have has_id: "''movie_id'' \<in> set (df_columns ex_genres)"
    by code_simp
  have dg: "stmt_drop_duplicates ex_genres = Inr ex_genres"
    by code_simp
  have cg: "columns_named ex_genres ''movie_id'' = [(''movie_id'', [Str ''m1'', Str ''m2'', Str ''m3''])]"
    by code_simp
  from coerced_fields [OF g] has_id dg cg
  have b: "columns_named ex_genres_clean ''movie_id'' = [(''movie_id'', [Str ''m1'', Str ''m2'', Str ''m3''])]"
    by auto
  from v a g b show ?thesis by simp
qed


section \<open>The caller's table\<close>


lemma run_in_place_frame:
  assumes "a < length st" and "run_in_place stmts st a = (st', r)"
  shows "length st' = length st \<and> (\<forall>b. b \<noteq> a \<longrightarrow> st' ! b = st ! b) \<and>
         (\<forall>a'. r = Inr a' \<longrightarrow> a' = a \<and> run_pure stmts (st ! a) = Inr (st' ! a))"
  using assms
proof (induction stmts arbitrary: st)
  case Nil
  then show ?case by auto
next
  case (Cons stmt stmts)
  show ?case
  proof (cases "stmt (st ! a)")
    case (Inl e)
    with Cons.prems show ?thesis by auto
  next
    case (Inr d)
    with Cons.prems have run: "run_in_place stmts (st[a := d]) a = (st', r)" by simp
    have "a < length (st[a := d])" using Cons.prems(1) by simp
    from Cons.IH [OF this run] have
      len: "length st' = length (st[a := d])" and
      other: "\<forall>b. b \<noteq> a \<longrightarrow> st' ! b = st[a := d] ! b" and
      res: "\<forall>a'. r = Inr a' \<longrightarrow> a' = a \<and> run_pure stmts (st[a := d] ! a) = Inr (st' ! a)"
      by blast+
    have d: "st[a := d] ! a = d" using Cons.prems(1) by simp
    have eq: "run_pure (stmt # stmts) (st ! a) = run_pure stmts d" using Inr by simp
    have res': "\<forall>a'. r = Inr a' \<longrightarrow> a' = a \<and> run_pure stmts d = Inr (st' ! a)"
      using res d by simp
    have "\<forall>a'. r = Inr a' \<longrightarrow> a' = a \<and> run_pure (stmt # stmts) (st ! a) = Inr (st' ! a)"
      unfolding eq using res' .
    moreover have "\<forall>b. b \<noteq> a \<longrightarrow> st' ! b = st ! b" using other by simp
    moreover have "length st' = length st" using len by simp
    ultimately show ?thesis by blast
  qed
qed

lemma take_unchanged:
  assumes "length st \<le> length st'" and "\<forall>b<length st. st' ! b = st ! b"
  shows "take (length st) st' = st"
  using assms by (intro nth_equalityI) simp_all

lemma apply_mapping_obj_frame:
  assumes "apply_mapping_obj st df mapping = (st', r)"
  shows "take (length st) st' = st \<and>
         (\<forall>a. r = Inr a \<longrightarrow> length st \<le> a \<and> a < length st' \<and>
              apply_mapping (st ! df) mapping = Inr (st' ! a))"
  using assms
  by (cases "select_columns (rename (st ! df) mapping) (existing_std_cols (rename (st ! df) mapping))")
     (auto simp add: apply_mapping_obj_def new_object_def apply_mapping_def Let_def nth_append)

lemma validate_and_clean_obj_frame:
  assumes df: "df < length st" and v: "validate_and_clean_obj parse repr st df = (st', r)"
  shows "take (length st) st' = st \<and>
         (\<forall>a. r = Inr a \<longrightarrow> length st \<le> a \<and> a < length st' \<and>
              validate_and_clean parse repr (st ! df) = Inr (st' ! a))"
proof (cases "''title'' \<in> set (df_columns (st ! df)) \<and> ''release_year'' \<in> set (df_columns (st ! df))")
  case True
  then have sd: "stmt_drop_duplicates (st ! df) = drop_duplicates (st ! df) [''title'', ''release_year'']"
    by (simp add: stmt_drop_duplicates_def)
  show ?thesis
  proof (cases "drop_duplicates (st ! df) [''title'', ''release_year'']")
    case (Inl e)
    with True v show ?thesis by (auto simp add: validate_and_clean_obj_def new_object_def)
  next
    case (Inr d)
    let ?st2 = "st @ [st ! df, d]"
    let ?a = "Suc (length st)"
    from True Inr v have run: "run_in_place (clean_statements parse repr) ?st2 ?a = (st', r)"
      by (simp add: validate_and_clean_obj_def new_object_def)
    have "?a < length ?st2" by simp
    from run_in_place_frame [OF this run] have
      len: "length st' = length ?st2" and
      other: "\<forall>b. b \<noteq> ?a \<longrightarrow> st' ! b = ?st2 ! b" and
      res: "\<forall>a'. r = Inr a' \<longrightarrow> a' = ?a \<and> run_pure (clean_statements parse repr) (?st2 ! ?a) = Inr (st' ! ?a)"
      by blast+
    have "\<forall>b<length st. st' ! b = st ! b" using other by (simp add: nth_append)
    with len have t: "take (length st) st' = st" by (intro take_unchanged) simp_all
    have "?st2 ! ?a = d" by (simp add: nth_append)
    with res sd Inr have "\<forall>a'. r = Inr a' \<longrightarrow> a' = ?a \<and>
        validate_and_clean parse repr (st ! df) = Inr (st' ! ?a)"
      by (simp add: validate_and_clean_def)
    with t len show ?thesis by auto
  qed
next
  case False
  then have sd: "stmt_drop_duplicates (st ! df) = Inr (st ! df)"
    by (auto simp add: stmt_drop_duplicates_def)
  let ?st1 = "st @ [st ! df]"
  let ?a = "length st"
  from False v have run: "run_in_place (clean_statements parse repr) ?st1 ?a = (st', r)"
    by (auto simp add: validate_and_clean_obj_def new_object_def)
  have "?a < length ?st1" by simp
  from run_in_place_frame [OF this run] have
    len: "length st' = length ?st1" and
    other: "\<forall>b. b \<noteq> ?a \<longrightarrow> st' ! b = ?st1 ! b" and
    res: "\<forall>a'. r = Inr a' \<longrightarrow> a' = ?a \<and> run_pure (clean_statements parse repr) (?st1 ! ?a) = Inr (st' ! ?a)"
    by blast+
  have "\<forall>b<length st. st' ! b = st ! b" using other by (simp add: nth_append)
  with len have t: "take (length st) st' = st" by (intro take_unchanged) simp_all
  from res sd have "\<forall>a'. r = Inr a' \<longrightarrow> a' = ?a \<and>
      validate_and_clean parse repr (st ! df) = Inr (st' ! ?a)"
    by (simp add: validate_and_clean_def)
  with t len show ?thesis by auto
qed

lemma normalize_obj_frame:
  assumes df: "df < length st" and n: "normalize_obj parse repr st df mapping = (st', r)"
  shows "take (length st) st' = st \<and>
         (\<forall>a. r = Inr a \<longrightarrow> length st \<le> a \<and> a < length st' \<and>
              (\<exists>m. apply_mapping (st ! df) mapping = Inr m \<and>
                   validate_and_clean parse repr m = Inr (st' ! a)))"
proof -
  obtain st1 r1 where a: "apply_mapping_obj st df mapping = (st1, r1)"
    by (cases "apply_mapping_obj st df mapping")
  from apply_mapping_obj_frame [OF a] have
    t1: "take (length st) st1 = st" and
    r1: "\<forall>a. r1 = Inr a \<longrightarrow> length st \<le> a \<and> a < length st1 \<and>
              apply_mapping (st ! df) mapping = Inr (st1 ! a)"
    by simp_all
  show ?thesis
  proof (cases r1)
    case (Inl e)
    with a n have "st' = st1" "r = Inl e" by (simp_all add: normalize_obj_def)
    with t1 show ?thesis by simp
  next
    case (Inr m)
    with a n have v: "validate_and_clean_obj parse repr st1 m = (st', r)"
      by (simp add: normalize_obj_def)
    from r1 Inr have m: "length st \<le> m" "m < length st1"
      "apply_mapping (st ! df) mapping = Inr (st1 ! m)" by simp_all
    from validate_and_clean_obj_frame [OF m(2) v] have
      t2: "take (length st1) st' = st1" and
      r2: "\<forall>a. r = Inr a \<longrightarrow> length st1 \<le> a \<and> a < length st' \<and>
              validate_and_clean parse repr (st1 ! m) = Inr (st' ! a)"
      by simp_all
    have le: "length st \<le> length st1" using m by simp
    have "take (length st) st' = take (length st) (take (length st1) st')"
      using le by (simp add: min_def)
    with t1 t2 have t: "take (length st) st' = st" by simp
    from r2 m le have "\<forall>a. r = Inr a \<longrightarrow> length st \<le> a \<and> a < length st' \<and>
              (\<exists>m. apply_mapping (st ! df) mapping = Inr m \<and>
                   validate_and_clean parse repr m = Inr (st' ! a))"
      by auto
    with t show ?thesis by simp
  qed
qed

text \<open>
  Claim C9. \<^verbatim>\<open>_apply_mapping\<close>, \<^verbatim>\<open>_validate_and_clean\<close> and their composition, run on a frame
  object of the caller, leave every object that existed before the call as it was, the
  caller's frame among them, also when an exception is raised; a table they return is a new
  object, and it holds the value that the function computes from the caller's frame.
\<close>

theorem caller_table_unchanged:
  assumes "df < length st"
  shows
   "(case apply_mapping_obj st df mapping of (st', r) \<Rightarrow>
       take (length st) st' = st \<and>
       (\<forall>a. r = Inr a \<longrightarrow> length st \<le> a \<and> a < length st' \<and>
            apply_mapping (st ! df) mapping = Inr (st' ! a))) \<and>
    (case validate_and_clean_obj parse repr st df of (st', r) \<Rightarrow>
       take (length st) st' = st \<and>
       (\<forall>a. r = Inr a \<longrightarrow> length st \<le> a \<and> a < length st' \<and>
            validate_and_clean parse repr (st ! df) = Inr (st' ! a))) \<and>
    (case normalize_obj parse repr st df mapping of (st', r) \<Rightarrow>
       take (length st) st' = st \<and>
       (\<forall>a. r = Inr a \<longrightarrow> length st \<le> a \<and> a < length st' \<and>
            (\<exists>m. apply_mapping (st ! df) mapping = Inr m \<and>
                 validate_and_clean parse repr m = Inr (st' ! a))))"
proof (intro conjI)
  show "case apply_mapping_obj st df mapping of (st', r) \<Rightarrow>
       take (length st) st' = st \<and>
       (\<forall>a. r = Inr a \<longrightarrow> length st \<le> a \<and> a < length st' \<and>
            apply_mapping (st ! df) mapping = Inr (st' ! a))"
    using apply_mapping_obj_frame [of st df mapping]
    by (cases "apply_mapping_obj st df mapping") simp
  show "case validate_and_clean_obj parse repr st df of (st', r) \<Rightarrow>
       take (length st) st' = st \<and>
       (\<forall>a. r = Inr a \<longrightarrow> length st \<le> a \<and> a < length st' \<and>
            validate_and_clean parse repr (st ! df) = Inr (st' ! a))"
    using validate_and_clean_obj_frame [OF assms, of parse repr]
    by (cases "validate_and_clean_obj parse repr st df") simp
  show "case normalize_obj parse repr st df mapping of (st', r) \<Rightarrow>
       take (length st) st' = st \<and>
       (\<forall>a. r = Inr a \<longrightarrow> length st \<le> a \<and> a < length st' \<and>
            (\<exists>m. apply_mapping (st ! df) mapping = Inr m \<and>
                 validate_and_clean parse repr m = Inr (st' ! a)))"
    using normalize_obj_frame [OF assms, of parse repr mapping]
    by (cases "normalize_obj parse repr st df mapping") simp
qed



text \<open>A store that holds the table of four films only: it is still there afterwards, and the
  result is the sixth object.\<close>

theorem caller_table_unchanged_witness:
  "(0::nat) < length [ex_movies] \<and>
   take (length [ex_movies]) (fst (normalize_obj ex_parse ex_repr [ex_movies] 0 [])) = [ex_movies] \<and>
   snd (normalize_obj ex_parse ex_repr [ex_movies] 0 []) = Inr 5 \<and>
   fst (normalize_obj ex_parse ex_repr [ex_movies] 0 []) ! 5 = ex_movies_clean"
proof -
  have l: "(0::nat) < length [ex_movies]" by simp
  have r: "snd (normalize_obj ex_parse ex_repr [ex_movies] 0 []) = Inr 5" by code_simp
  have o: "fst (normalize_obj ex_parse ex_repr [ex_movies] 0 []) ! 5 = ex_movies_clean" by code_simp
  from caller_table_unchanged [OF l, of "[]" ex_parse ex_repr]
  have "take (length [ex_movies]) (fst (normalize_obj ex_parse ex_repr [ex_movies] 0 [])) = [ex_movies]"
    by (simp add: case_prod_unfold)
  with l r o show ?thesis by simp
qed

end
